theory Spec2Isabelle
  imports Main "HOL-Library.Sublist" "HOL-Library.AList"
begin

section \<open>Values thrown by the platform and by callers' operations\<close>

text \<open>
  A JavaScript value that was thrown, or with which a promise was rejected. The client
  looks at it only through \<open>instanceof Error\<close>, \<open>instanceof TypeError\<close>, \<open>.name\<close> and
  \<open>.message\<close>, so these four observations are its model.
\<close>

record thrown =
  instanceof_Error :: bool
  instanceof_TypeError :: bool
  thrown_name :: string
  thrown_message :: string

section \<open>The durable tier: localStorage\<close>

text \<open>
  \<open>src/api/amsCache.ts\<close>. A cache entry as both tiers hold it (the interfaces
  \<open>CacheEntry\<close> and \<open>StoredCacheEntry\<close> have the same three fields). \<open>timestamp\<close> and
  \<open>ttl\<close> are milliseconds; \<open>data\<close> ranges over the non-null values of the payload type.
\<close>

record 'a CacheEntry =
  data :: 'a
  timestamp :: int
  ttl :: int

type_synonym 'a StoredCacheEntry = "'a CacheEntry"

definition CACHE_TTL_REFERENTIALS :: int where "CACHE_TTL_REFERENTIALS = 86400000"
definition CACHE_TTL_DEFAULT :: int where "CACHE_TTL_DEFAULT = 300000"
definition CACHE_TTL_SHORT :: int where "CACHE_TTL_SHORT = 60000"
definition CACHE_TTL_NONE :: int where "CACHE_TTL_NONE = 0"

definition STORAGE_PREFIX :: string where "STORAGE_PREFIX = ''ams_cache_''"

text \<open>
  localStorage holds text. The code reads a text only through \<open>JSON.parse\<close> followed by the
  test \<open>entry.ttl > 0 && Date.now() - entry.timestamp < entry.ttl\<close>, so a stored text is
  one of three kinds:
  \<^item> \<open>Entry_json e\<close>: the text \<open>JSON.stringify\<close> writes for the entry \<open>e\<close>, which
    \<open>JSON.parse\<close> reads back as \<open>e\<close>;
  \<^item> \<open>Other_json t\<close>: a text that parses, to a value that has no positive \<open>ttl\<close>;
  \<^item> \<open>Plain_text t\<close>: the empty text, or a text on which the \<open>try\<close> block throws
    (\<open>JSON.parse\<close> raises a SyntaxError, or the text is \<open>null\<close>). The session token and
    the session settings are such texts from the cache's point of view.
  The storage is an association list: \<open>localStorage.key(i)\<close> is the key of its i-th pair.
\<close>

datatype 'a stored_text = Entry_json "'a StoredCacheEntry" | Other_json string | Plain_text string

type_synonym 'a storage = "(string \<times> 'a stored_text) list"

definition getItem :: "'a storage \<Rightarrow> string \<Rightarrow> 'a stored_text option" where
  "getItem ls k = map_of ls k"

definition setItem :: "'a storage \<Rightarrow> string \<Rightarrow> 'a stored_text \<Rightarrow> 'a storage" where
  "setItem ls k v = AList.update k v ls"

definition removeItem :: "'a storage \<Rightarrow> string \<Rightarrow> 'a storage" where
  "removeItem ls k = AList.delete k ls"

section \<open>The cache store and the request coalescer: state\<close>

text \<open>
  A promise of the in-flight table. \<open>deduplicatedFetch\<close> builds it as
  \<open>fetcher().then(data => { set(key, data, ttl, persistToStorage); return data; })\<close> and
  \<open>setInFlight\<close> attaches \<open>finally(() => inFlightRequests.delete(key))\<close>: the callbacks close
  over \<open>key\<close>, \<open>ttl\<close> and \<open>persistToStorage\<close>, which the promise therefore carries.
\<close>

datatype 'a promise_state = Pending | Fulfilled 'a | Rejected thrown

record 'a in_flight =
  closure_key :: string
  closure_ttl :: int
  closure_persist :: bool
  settled :: "'a promise_state"

text \<open>
  The module's state: the two maps of the module, the storage, and the promises created so
  far (a promise is named by its index). \<open>quota_exceeded\<close> says that \<open>localStorage.setItem\<close>
  throws. The two logs record effects: every invocation of a caller's fetcher, and every
  run of the \<open>finally\<close> callback that deletes from the in-flight table, each with its key.
\<close>

record 'a cache_state =
  memoryCache :: "string \<rightharpoonup> 'a CacheEntry"
  inFlightRequests :: "string \<rightharpoonup> nat"
  localStorage :: "'a storage"
  quota_exceeded :: bool
  promises :: "'a in_flight list"
  fetcher_invocations :: "string list"
  inflight_deletions :: "string list"

text \<open>The module as loaded: both maps empty, over an empty storage that accepts writes.\<close>

definition cache_initial :: "'a cache_state" where
  "cache_initial =
     \<lparr>memoryCache = Map.empty, inFlightRequests = Map.empty, localStorage = [],
      quota_exceeded = False, promises = [], fetcher_invocations = [],
      inflight_deletions = []\<rparr>"

section \<open>The cache store\<close>

text \<open>\<open>Date.now()\<close> is the argument \<open>now\<close> of every operation that reads the clock.\<close>

definition isValid :: "int \<Rightarrow> 'a CacheEntry option \<Rightarrow> bool" where
  "isValid now entry =
     (case entry of
        None \<Rightarrow> False
      | Some e \<Rightarrow> if ttl e = 0 then False else now - timestamp e < ttl e)"

definition getFromMemory :: "'a cache_state \<Rightarrow> int \<Rightarrow> string \<Rightarrow> 'a cache_state \<times> 'a option" where
  "getFromMemory s now key =
     (case memoryCache s key of
        None \<Rightarrow> (s, None)
      | Some e \<Rightarrow>
          if isValid now (Some e) then (s, Some (data e))
          else (s\<lparr>memoryCache := (memoryCache s)(key := None)\<rparr>, None))"

definition setInMemory :: "'a cache_state \<Rightarrow> int \<Rightarrow> string \<Rightarrow> 'a \<Rightarrow> int \<Rightarrow> 'a cache_state" where
  "setInMemory s now key d t =
     s\<lparr>memoryCache := (memoryCache s)(key \<mapsto> \<lparr>data = d, timestamp = now, ttl = t\<rparr>)\<rparr>"

definition getFromStorage :: "'a cache_state \<Rightarrow> int \<Rightarrow> string \<Rightarrow> 'a cache_state \<times> 'a option" where
  "getFromStorage s now key =
     (case getItem (localStorage s) (STORAGE_PREFIX @ key) of
        None \<Rightarrow> (s, None)
      | Some (Plain_text t) \<Rightarrow> (s, None)
      | Some (Other_json t) \<Rightarrow>
          (s\<lparr>localStorage := removeItem (localStorage s) (STORAGE_PREFIX @ key)\<rparr>, None)
      | Some (Entry_json entry) \<Rightarrow>
          if ttl entry > 0 \<and> now - timestamp entry < ttl entry then (s, Some (data entry))
          else (s\<lparr>localStorage := removeItem (localStorage s) (STORAGE_PREFIX @ key)\<rparr>, None))"

definition setInStorage :: "'a cache_state \<Rightarrow> int \<Rightarrow> string \<Rightarrow> 'a \<Rightarrow> int \<Rightarrow> 'a cache_state" where
  "setInStorage s now key d t =
     (if quota_exceeded s then s
      else s\<lparr>localStorage :=
        setItem (localStorage s) (STORAGE_PREFIX @ key)
          (Entry_json \<lparr>data = d, timestamp = now, ttl = t\<rparr>)\<rparr>)"

text \<open>\<open>get\<close> and \<open>set\<close> of the module (\<open>set\<close> is taken in HOL).\<close>

definition cache_get :: "'a cache_state \<Rightarrow> int \<Rightarrow> string \<Rightarrow> 'a cache_state \<times> 'a option" where
  "cache_get s now key =
     (case getFromMemory s now key of
        (s1, Some memResult) \<Rightarrow> (s1, Some memResult)
      | (s1, None) \<Rightarrow>
          (case getFromStorage s1 now key of
             (s2, Some storageResult) \<Rightarrow>
               (setInMemory s2 now key storageResult CACHE_TTL_DEFAULT, Some storageResult)
           | (s2, None) \<Rightarrow> (s2, None)))"

definition cache_set :: "'a cache_state \<Rightarrow> int \<Rightarrow> string \<Rightarrow> 'a \<Rightarrow> int \<Rightarrow> bool \<Rightarrow> 'a cache_state" where
  "cache_set s now key d t persistToStorage =
     (let s1 = setInMemory s now key d t in
      if persistToStorage \<and> t > 0 then setInStorage s1 now key d t else s1)"

definition invalidate :: "'a cache_state \<Rightarrow> string \<Rightarrow> 'a cache_state" where
  "invalidate s key =
     s\<lparr>memoryCache := (memoryCache s)(key := None),
       localStorage := removeItem (localStorage s) (STORAGE_PREFIX @ key)\<rparr>"

text \<open>
  The loop of \<open>clearAll\<close>: \<open>i\<close> runs over the indices of the storage and the keys that
  start with the prefix are pushed onto \<open>keysToRemove\<close>; the empty key is falsy and skipped.
\<close>

function clearAll_loop :: "'a storage \<Rightarrow> nat \<Rightarrow> string list \<Rightarrow> string list" where
  "clearAll_loop ls i keysToRemove =
     (if i < length ls then
        (let key = fst (ls ! i) in
         clearAll_loop ls (i + 1)
           (if key \<noteq> [] \<and> prefix STORAGE_PREFIX key then keysToRemove @ [key]
            else keysToRemove))
      else keysToRemove)"
  by pat_completeness auto
termination
  by (relation "measure (\<lambda>(ls, i, keysToRemove). length ls - i)") auto

declare clearAll_loop.simps [simp del]

definition clearAll :: "'a cache_state \<Rightarrow> 'a cache_state" where
  "clearAll s =
     (let keysToRemove = clearAll_loop (localStorage s) 0 [] in
      s\<lparr>memoryCache := Map.empty,
        localStorage := foldl removeItem (localStorage s) keysToRemove\<rparr>)"

section \<open>Session storage keys (\<open>src/utils/api.ts\<close>)\<close>

definition saveToken :: "'a cache_state \<Rightarrow> string \<Rightarrow> 'a cache_state" where
  "saveToken s token = s\<lparr>localStorage := setItem (localStorage s) ''erpToken'' (Plain_text token)\<rparr>"

definition getStoredToken :: "'a cache_state \<Rightarrow> 'a stored_text option" where
  "getStoredToken s = getItem (localStorage s) ''erpToken''"

definition clearToken :: "'a cache_state \<Rightarrow> 'a cache_state" where
  "clearToken s = s\<lparr>localStorage := removeItem (localStorage s) ''erpToken''\<rparr>"

definition getStoredApiSettings :: "'a cache_state \<Rightarrow> 'a stored_text option" where
  "getStoredApiSettings s = getItem (localStorage s) ''erpApiSettings''"

section \<open>The request coalescer\<close>

definition getInFlight :: "'a cache_state \<Rightarrow> string \<Rightarrow> nat option" where
  "getInFlight s key = inFlightRequests s key"

text \<open>
  \<open>setInFlight\<close> registers the promise; the \<open>finally\<close> callback it attaches is
  \<open>finally_callback\<close> below, run when the promise settles.
\<close>

definition setInFlight :: "'a cache_state \<Rightarrow> string \<Rightarrow> nat \<Rightarrow> 'a cache_state" where
  "setInFlight s key promise = s\<lparr>inFlightRequests := (inFlightRequests s)(key \<mapsto> promise)\<rparr>"

text \<open>
  What the \<open>async\<close> function \<open>deduplicatedFetch\<close> returns: a value (the returned promise is
  resolved with it), or a promise of the in-flight table, whose outcome the returned promise
  adopts.
\<close>

datatype 'a returned = Value 'a | Adopts nat

text \<open>
  The body has no \<open>await\<close>: a call runs to its \<open>return\<close> without interruption. Invoking the
  fetcher (an \<open>async\<close> function) yields a promise that has not run any callback yet; the
  promise built on it by \<open>then\<close> is the new, pending entry of \<open>promises\<close>.
\<close>

definition deduplicatedFetch ::
  "'a cache_state \<Rightarrow> int \<Rightarrow> string \<Rightarrow> int \<Rightarrow> bool \<Rightarrow> 'a cache_state \<times> 'a returned" where
  "deduplicatedFetch s now key t persistToStorage =
     (case cache_get s now key of
        (s1, Some cached) \<Rightarrow> (s1, Value cached)
      | (s1, None) \<Rightarrow>
          (case getInFlight s1 key of
             Some inFlight \<Rightarrow> (s1, Adopts inFlight)
           | None \<Rightarrow>
               (let promise = length (promises s1);
                    s2 = s1\<lparr>fetcher_invocations := fetcher_invocations s1 @ [key],
                            promises := promises s1 @
                              [\<lparr>closure_key = key, closure_ttl = t,
                                closure_persist = persistToStorage, settled = Pending\<rparr>]\<rparr>
                in (setInFlight s2 key promise, Adopts promise))))"

text \<open>The callback of \<open>then\<close>: \<open>data => { set(key, data, ttl, persistToStorage); return data; }\<close>.\<close>

definition then_callback :: "'a cache_state \<Rightarrow> int \<Rightarrow> 'a in_flight \<Rightarrow> 'a \<Rightarrow> 'a cache_state" where
  "then_callback s now p d =
     cache_set s now (closure_key p) d (closure_ttl p) (closure_persist p)"

text \<open>The callback of \<open>finally\<close>: \<open>() => { inFlightRequests.delete(key); }\<close>.\<close>

definition finally_callback :: "'a cache_state \<Rightarrow> 'a in_flight \<Rightarrow> 'a cache_state" where
  "finally_callback s p =
     s\<lparr>inFlightRequests := (inFlightRequests s)(closure_key p := None),
       inflight_deletions := inflight_deletions s @ [closure_key p]\<rparr>"

text \<open>
  The fetcher's promise of the in-flight promise \<open>i\<close> settles at time \<open>now\<close>, with a value
  (\<open>Inr\<close>) or a failure (\<open>Inl\<close>). On a value the \<open>then\<close> callback runs and the promise is
  fulfilled with it; on a failure \<open>then\<close> has no handler and the promise is rejected with
  the same failure. Then the \<open>finally\<close> callback runs. A promise settles once: settling a
  promise that is not pending, or that does not exist, changes nothing.
\<close>

definition settle :: "'a cache_state \<Rightarrow> int \<Rightarrow> nat \<Rightarrow> thrown + 'a \<Rightarrow> 'a cache_state" where
  "settle s now i outcome =
     (if i < length (promises s) \<and> settled (promises s ! i) = Pending then
        (let p = promises s ! i in
         case outcome of
           Inr d \<Rightarrow>
             (let s1 = then_callback s now p d;
                  s2 = s1\<lparr>promises := (promises s1)[i := p\<lparr>settled := Fulfilled d\<rparr>]\<rparr>
              in finally_callback s2 p)
         | Inl err \<Rightarrow>
             (let s2 = s\<lparr>promises := (promises s)[i := p\<lparr>settled := Rejected err\<rparr>]\<rparr>
              in finally_callback s2 p))
      else s)"

text \<open>What a caller that holds the result of \<open>deduplicatedFetch\<close> observes in a state.\<close>

definition observed :: "'a cache_state \<Rightarrow> 'a returned \<Rightarrow> 'a promise_state" where
  "observed s r =
     (case r of
        Value v \<Rightarrow> Fulfilled v
      | Adopts i \<Rightarrow> if i < length (promises s) then settled (promises s ! i) else Pending)"

text \<open>
  Callers of \<open>deduplicatedFetch\<close> for one key, one after the other, each with its own time,
  \<open>ttl\<close> and \<open>persistToStorage\<close>; the results are in the callers' order.
\<close>

fun callers :: "'a cache_state \<Rightarrow> string \<Rightarrow> (int \<times> int \<times> bool) list \<Rightarrow>
    'a cache_state \<times> 'a returned list" where
  "callers s key [] = (s, [])"
| "callers s key ((now, t, persistToStorage) # cs) =
     (case deduplicatedFetch s now key t persistToStorage of
        (s1, r) \<Rightarrow> (case callers s1 key cs of (s2, rs) \<Rightarrow> (s2, r # rs)))"

text \<open>
  A notion for the proofs, not a function of the module: neither tier has anything to serve
  for the key at any time, and a read changes nothing (no entry in the fast tier; in the
  durable tier no entry, or a text the read path gives up on without removing it).
\<close>

definition nothing_cached :: "'a cache_state \<Rightarrow> string \<Rightarrow> bool" where
  "nothing_cached s key =
     (memoryCache s key = None \<and>
      (case getItem (localStorage s) (STORAGE_PREFIX @ key) of
         None \<Rightarrow> True
       | Some (Plain_text t) \<Rightarrow> True
       | Some (Other_json t) \<Rightarrow> False
       | Some (Entry_json e) \<Rightarrow> False))"

section \<open>The referential bootstrapper (\<open>src/api/amsBootstrap.ts\<close>)\<close>

record GenericRef =
  ID :: int
  CODE :: string
  LABEL :: string

record ReferentialStore =
  acTypes :: "GenericRef list"
  acFleet :: "GenericRef list"
  settings :: "GenericRef list"
  atas :: "GenericRef list"
  taskTypes :: "GenericRef list"
  craTypes :: "GenericRef list"
  delays :: "GenericRef list"
  movUrgs :: "GenericRef list"
  specialities :: "GenericRef list"
  pnTypes :: "GenericRef list"
  movTypes :: "GenericRef list"

definition emptyStore :: ReferentialStore where
  "emptyStore =
     \<lparr>acTypes = [], acFleet = [], settings = [], atas = [], taskTypes = [], craTypes = [],
      delays = [], movUrgs = [], specialities = [], pnTypes = [], movTypes = []\<rparr>"

text \<open>
  The outcomes of the eleven fetches of one fan-out, named as in \<open>fetchReferentials\<close>
  (\<open>genAcFleet\<close> is \<open>fetchReferentials.acFleet\<close>): each promise is fulfilled with a list
  (\<open>Inr\<close>) or rejected (\<open>Inl\<close>).
\<close>

record fan_out =
  genAcType :: "thrown + GenericRef list"
  genAcFleet :: "thrown + GenericRef list"
  genSettings :: "thrown + GenericRef list"
  genAta :: "thrown + GenericRef list"
  genTaskType :: "thrown + GenericRef list"
  genCraType :: "thrown + GenericRef list"
  genDelay :: "thrown + GenericRef list"
  genMovUrg :: "thrown + GenericRef list"
  genSpeciality :: "thrown + GenericRef list"
  genPnType :: "thrown + GenericRef list"
  genMovType :: "thrown + GenericRef list"

text \<open>
  The module's three variables, and the promises of the attempts started so far: the
  promise of an attempt is what the immediately invoked \<open>async\<close> function returned.
\<close>

record bootstrap_state =
  referentialStore :: ReferentialStore
  isBootstrapped :: bool
  bootstrapPromise :: "nat option"
  attempts :: "unit promise_state list"

definition bootstrap_initial :: bootstrap_state where
  "bootstrap_initial =
     \<lparr>referentialStore = emptyStore, isBootstrapped = False, bootstrapPromise = None,
      attempts = []\<rparr>"

text \<open>
  A call of \<open>bootstrapReferentials\<close> up to its \<open>return\<close>: a new attempt runs to its
  \<open>await Promise.all\<close>, where the eleven fetches are under way, and is stored.
\<close>

definition bootstrapReferentials :: "bootstrap_state \<Rightarrow> bootstrap_state \<times> unit returned" where
  "bootstrapReferentials s =
     (case bootstrapPromise s of
        Some p \<Rightarrow> (s, Adopts p)
      | None \<Rightarrow>
          if isBootstrapped s then (s, Value ())
          else
            (let p = length (attempts s)
             in (s\<lparr>bootstrapPromise := Some p, attempts := attempts s @ [Pending]\<rparr>, Adopts p)))"

text \<open>
  \<open>.catch(() => [])\<close> on one fetch of the fan-out: the promise it returns is fulfilled with
  the fetched list, or with the empty list when the fetch was rejected.
\<close>

definition catch_empty :: "thrown + GenericRef list \<Rightarrow> thrown + GenericRef list" where
  "catch_empty outcome = (case outcome of Inl e \<Rightarrow> Inr [] | Inr refs \<Rightarrow> Inr refs)"

text \<open>
  \<open>Promise.all\<close> over settled promises: fulfilled with all the values when every promise
  is fulfilled, rejected with the failure of a rejected one otherwise.
\<close>

fun Promise_all :: "(thrown + 'a) list \<Rightarrow> thrown + 'a list" where
  "Promise_all [] = Inr []"
| "Promise_all (Inl e # ps) = Inl e"
| "Promise_all (Inr x # ps) =
     (case Promise_all ps of Inl e \<Rightarrow> Inl e | Inr xs \<Rightarrow> Inr (x # xs))"

text \<open>
  The attempt \<open>p\<close> resumes after \<open>await Promise.all\<close> with the outcomes of its fetches. In
  the \<open>try\<close> block it replaces the store and sets the flag; if \<open>Promise.all\<close> is rejected
  the \<open>catch\<close> block logs the failure and throws nothing. The \<open>finally\<close> block clears
  \<open>bootstrapPromise\<close>, and the promise of the attempt is fulfilled. An attempt resumes
  once: for a promise that is not pending, or does not exist, nothing changes.
\<close>

definition fan_in :: "bootstrap_state \<Rightarrow> nat \<Rightarrow> fan_out \<Rightarrow> bootstrap_state" where
  "fan_in s p outcomes =
     (if p < length (attempts s) \<and> attempts s ! p = Pending then
        (let s1 =
           (case Promise_all
                  [catch_empty (genAcType outcomes), catch_empty (genAcFleet outcomes),
                   catch_empty (genSettings outcomes), catch_empty (genAta outcomes),
                   catch_empty (genTaskType outcomes), catch_empty (genCraType outcomes),
                   catch_empty (genDelay outcomes), catch_empty (genMovUrg outcomes),
                   catch_empty (genSpeciality outcomes), catch_empty (genPnType outcomes),
                   catch_empty (genMovType outcomes)] of
              Inr [acTypes', acFleet', settings', atas', taskTypes', craTypes', delays',
                   movUrgs', specialities', pnTypes', movTypes'] \<Rightarrow>
                s\<lparr>referentialStore :=
                    \<lparr>acTypes = acTypes', acFleet = acFleet', settings = settings',
                     atas = atas', taskTypes = taskTypes', craTypes = craTypes',
                     delays = delays', movUrgs = movUrgs', specialities = specialities',
                     pnTypes = pnTypes', movTypes = movTypes'\<rparr>,
                  isBootstrapped := True\<rparr>
            | _ \<Rightarrow> s)
         in s1\<lparr>bootstrapPromise := None, attempts := (attempts s1)[p := Fulfilled ()]\<rparr>)
      else s)"

definition isReferentialsLoaded :: "bootstrap_state \<Rightarrow> bool" where
  "isReferentialsLoaded s = isBootstrapped s"

definition getAcTypes :: "bootstrap_state \<Rightarrow> GenericRef list" where
  "getAcTypes s = acTypes (referentialStore s)"

definition getAcFleet :: "bootstrap_state \<Rightarrow> GenericRef list" where
  "getAcFleet s = acFleet (referentialStore s)"

definition getSettings :: "bootstrap_state \<Rightarrow> GenericRef list" where
  "getSettings s = settings (referentialStore s)"

definition getAtas :: "bootstrap_state \<Rightarrow> GenericRef list" where
  "getAtas s = atas (referentialStore s)"

definition getTaskTypes :: "bootstrap_state \<Rightarrow> GenericRef list" where
  "getTaskTypes s = taskTypes (referentialStore s)"

definition getCraTypes :: "bootstrap_state \<Rightarrow> GenericRef list" where
  "getCraTypes s = craTypes (referentialStore s)"

definition getDelays :: "bootstrap_state \<Rightarrow> GenericRef list" where
  "getDelays s = delays (referentialStore s)"

definition getMovUrgs :: "bootstrap_state \<Rightarrow> GenericRef list" where
  "getMovUrgs s = movUrgs (referentialStore s)"

definition getSpecialities :: "bootstrap_state \<Rightarrow> GenericRef list" where
  "getSpecialities s = specialities (referentialStore s)"

definition getPnTypes :: "bootstrap_state \<Rightarrow> GenericRef list" where
  "getPnTypes s = pnTypes (referentialStore s)"

definition getMovTypes :: "bootstrap_state \<Rightarrow> GenericRef list" where
  "getMovTypes s = movTypes (referentialStore s)"

definition resetBootstrap :: "bootstrap_state \<Rightarrow> bootstrap_state" where
  "resetBootstrap s =
     s\<lparr>referentialStore := emptyStore, isBootstrapped := False, bootstrapPromise := None\<rparr>"

section \<open>The HTTP client (\<open>amsClient\<close>)\<close>

datatype error_kind = Network | Timeout | Http | Parse | Unknown

text \<open>\<open>AmsApiError\<close>; the optional \<open>status\<close>, \<open>statusText\<close> and \<open>params\<close> are options.\<close>

record AmsApiError =
  error_type :: error_kind
  error_status :: "int option"
  error_statusText :: "string option"
  error_message :: string
  error_endpoint :: string
  error_params :: "(string \<times> string) list option"

text \<open>\<open>AmsResult\<close>: \<open>{ ok: true, data }\<close> or \<open>{ ok: false, error }\<close>.\<close>

datatype 'a AmsResult = Ok 'a | Err AmsApiError

text \<open>
  \<open>AmsClientConfig\<close>. The callback \<open>onUnauthorized\<close> is optional; it is a value of any type
  \<open>'cb\<close>, recorded in the trace when the client invokes it, and it returns normally.
\<close>

record 'cb AmsClientConfig =
  baseUrl :: string
  timeout :: int
  maxRetries :: int
  retryDelay :: int
  onUnauthorized :: "'cb option"

datatype http_method = GET | POST | PUT | DELETE

text \<open>
  A response as the client reads it: the status line, the \<open>content-type\<close> header, what
  \<open>response.json()\<close> and \<open>response.text()\<close> settle to (\<open>Inl\<close>: the promise is rejected),
  and what \<open>JSON.parse\<close> makes of the text (\<open>None\<close>: it throws).
\<close>

record 'a response =
  status :: int
  statusText :: string
  content_type :: "string option"
  json_settles :: "thrown + 'a"
  text_settles :: "thrown + string"
  text_parses :: "'a option"

text \<open>\<open>response.ok\<close> is true exactly for the statuses 200 to 299.\<close>

definition ok :: "'a response \<Rightarrow> bool" where
  "ok r = (200 \<le> status r \<and> status r \<le> 299)"

text \<open>What \<open>await fetch(url, ...)\<close> does: it yields a response or throws; the abort of the
  timeout timer arrives as a thrown \<open>AbortError\<close>.\<close>

datatype 'a fetch_outcome = Responds "'a response" | Throws thrown

text \<open>The data of a successful result: the parsed body, or the raw text.\<close>

datatype 'a payload = Parsed 'a | Raw_text string

text \<open>The effects of a call, in order.\<close>

datatype 'cb event = Fetch http_method string | Sleep int | Unauthorized 'cb

text \<open>\<open>String.prototype.includes\<close> (a keyword here, hence the longer name), and the decimal notation of a template literal.\<close>

fun string_includes :: "string \<Rightarrow> string \<Rightarrow> bool" where
  "string_includes [] sub = (sub = [])"
| "string_includes (c # cs) sub = (prefix sub (c # cs) \<or> string_includes cs sub)"

fun show_nat :: "nat \<Rightarrow> string" where
  "show_nat n =
     (if n < 10 then [''0123456789'' ! n]
      else show_nat (n div 10) @ [''0123456789'' ! (n mod 10)])"

declare show_nat.simps [simp del]

definition show_int :: "int \<Rightarrow> string" where
  "show_int i = (if i < 0 then ''-'' @ show_nat (nat (- i)) else show_nat (nat i))"

definition createError ::
  "error_kind \<Rightarrow> string \<Rightarrow> string \<Rightarrow> (string \<times> string) list option \<Rightarrow> int option \<Rightarrow>
   string option \<Rightarrow> AmsApiError" where
  "createError type message endpoint params st stText =
     \<lparr>error_type = type, error_status = st, error_statusText = stText,
      error_message = message, error_endpoint = endpoint, error_params = params\<rparr>"

definition parse_failure :: "thrown \<Rightarrow> string \<Rightarrow> 'a AmsResult" where
  "parse_failure error endpoint =
     Err \<lparr>error_type = Parse, error_status = None, error_statusText = None,
          error_message = ''Failed to parse response: '' @
            (if instanceof_Error error then thrown_message error else ''Unknown error''),
          error_endpoint = endpoint, error_params = None\<rparr>"

definition parseResponse :: "'a response \<Rightarrow> string \<Rightarrow> 'a payload AmsResult" where
  "parseResponse r endpoint =
     (let contentType = (case content_type r of None \<Rightarrow> [] | Some c \<Rightarrow> c) in
      if string_includes contentType ''application/json'' then
        (case json_settles r of
           Inr d \<Rightarrow> Ok (Parsed d)
         | Inl error \<Rightarrow> parse_failure error endpoint)
      else
        (case text_settles r of
           Inl error \<Rightarrow> parse_failure error endpoint
         | Inr text \<Rightarrow>
             (case text_parses r of
                Some d \<Rightarrow> Ok (Parsed d)
              | None \<Rightarrow> Ok (Raw_text text))))"

text \<open>
  \<open>fetchWithRetry\<close>. \<open>net n\<close> is the outcome of the \<open>fetch\<close> issued by attempt \<open>n\<close> of the
  call; the configuration is the one in force during the call. Headers and body are handed
  to \<open>fetch\<close> and decide nothing here. The trace \<open>tr\<close> receives the effects.
\<close>

function fetchWithRetry ::
  "'cb AmsClientConfig \<Rightarrow> (nat \<Rightarrow> 'a fetch_outcome) \<Rightarrow> http_method \<Rightarrow> string \<Rightarrow>
   (string \<times> string) list option \<Rightarrow> nat \<Rightarrow> 'cb event list \<Rightarrow>
   'a payload AmsResult \<times> 'cb event list" where
  "fetchWithRetry cfg net method endpoint params attempt tr =
     (let url = baseUrl cfg @ endpoint;
          tr1 = tr @ [Fetch method url]
      in
      case net attempt of
        Responds r \<Rightarrow>
          if status r = 401 then
            (Err (createError Http ''Unauthorized - session expired'' endpoint params
                    (Some 401) (Some ''Unauthorized'')),
             case onUnauthorized cfg of None \<Rightarrow> tr1 | Some cb \<Rightarrow> tr1 @ [Unauthorized cb])
          else if \<not> ok r then
            (let errorText = (case text_settles r of Inr t \<Rightarrow> t | Inl e \<Rightarrow> statusText r) in
             if status r \<ge> 500 \<and> int attempt < maxRetries cfg then
               fetchWithRetry cfg net method endpoint params (attempt + 1)
                 (tr1 @ [Sleep (retryDelay cfg * (int attempt + 1))])
             else
               (Err (createError Http (''HTTP '' @ show_int (status r) @ '': '' @ errorText)
                       endpoint params (Some (status r)) (Some (statusText r))),
                tr1))
          else (parseResponse r endpoint, tr1)
      | Throws error \<Rightarrow>
          if instanceof_Error error \<and> thrown_name error = ''AbortError'' then
            (if int attempt < maxRetries cfg then
               fetchWithRetry cfg net method endpoint params (attempt + 1)
                 (tr1 @ [Sleep (retryDelay cfg)])
             else
               (Err (createError Timeout
                       (''Request timed out after '' @ show_int (timeout cfg) @ ''ms'')
                       endpoint params None None),
                tr1))
          else if instanceof_TypeError error \<and> string_includes (thrown_message error) ''fetch'' then
            (if int attempt < maxRetries cfg then
               fetchWithRetry cfg net method endpoint params (attempt + 1)
                 (tr1 @ [Sleep (retryDelay cfg * (int attempt + 1))])
             else
               (Err (createError Network ''Network error - check your connection''
                       endpoint params None None),
                tr1))
          else
            (Err (createError Unknown
                    (if instanceof_Error error then thrown_message error
                     else ''Unknown error occurred'')
                    endpoint params None None),
             tr1))"
  by pat_completeness auto
termination
  by (relation "measure (\<lambda>(cfg, net, method, endpoint, params, attempt, tr).
        nat (maxRetries cfg - int attempt))") auto

declare fetchWithRetry.simps [simp del]

section \<open>Aggregation helpers (\<open>amsEndpoints\<close>)\<close>

text \<open>The counters of \<open>WpDetail\<close> are whole numbers.\<close>

record WpDetail =
  WP_ID :: int
  AC_MSN :: int
  WO_Total :: int
  WO_Total_Routine :: int
  WO_Total_RectWorks_Excl :: int
  WO_Total_AddWOrks :: int
  WO_Total_RectWorks_Incl :: int
  WO_Total_Storage :: int
  WO_Total_Routine_Closed :: int
  WO_Total_RectWorks_Excl_Closed :: int
  WO_Total_AddWorks_Closed :: int
  WO_Total_RectWorks_Incl_Closed :: int
  WO_Total_Storage_Closed :: int
  WO_Total_MH_Opened :: int
  WO_Total_Routine_MH_Opened :: int
  WO_Total_RectWorks_Excl_MH_Opened :: int
  WO_Total_AddWorks_MH_Opened :: int
  WO_Total_RectWorks_Incl_MH_Opened :: int
  WO_Total_Storage_MH_Opened :: int
  WO_Total_MH_Closed :: int
  WO_Total_Routine_MH_Closed :: int
  WO_Total_RectWorks_Excl_MH_Closed :: int
  WO_Total_AddWorks_MH_Closed :: int
  WO_Total_RectWorks_Incl_MH_Closed :: int
  WO_Total_Storage_MH_Closed :: int
  PARTS_IN_RFQ :: int
  PARTS_TO_BE_QUOTED :: int
  PARTS_TO_BE_ORDERED :: int
  PARTS_TO_BE_ORDERED_POIN :: int
  PARTS_ETA_PAST :: int
  PARTS_ETA_ON_TIME :: int
  PARTS_NO_ETA :: int
  BUYER_CQ_TO_APPROVE :: int
  TECHOFFICE_CQ_TO_APPROVE :: int
  TOOLS_NOT_RETURNED :: int
  PARTS_TO_BE_ISSUED :: int
  PARTS_TO_BE_ISSUED_POIN :: int
  PARTS_UNDER_CLAIM :: int
  CQ_TO_BE_SENT :: int
  CQ_PENDING_CUST_APPROVAL :: int
  PARTS_REQ_ETA_PAST :: int
  PARTS_REQ_ETA_ON_TIME :: int
  PARTS_REQ_NO_ETA :: int

record DashboardCounts =
  totalWO :: int
  closedWO :: int
  openMH :: int
  closedMH :: int
  partsInRfq :: int
  partsToBeOrdered :: int
  partsToBeIssued :: int
  partsEtaPast :: int
  cqToApprove :: int
  toolsNotReturned :: int

definition computeDashboardCounts :: "WpDetail \<Rightarrow> DashboardCounts" where
  "computeDashboardCounts wpDetail =
     (let closedWO =
            WO_Total_Routine_Closed wpDetail +
            WO_Total_RectWorks_Excl_Closed wpDetail +
            WO_Total_AddWorks_Closed wpDetail +
            WO_Total_RectWorks_Incl_Closed wpDetail +
            WO_Total_Storage_Closed wpDetail
      in
      \<lparr>totalWO = WO_Total wpDetail,
       closedWO = closedWO,
       openMH = WO_Total_MH_Opened wpDetail,
       closedMH = WO_Total_MH_Closed wpDetail,
       partsInRfq = PARTS_IN_RFQ wpDetail,
       partsToBeOrdered = PARTS_TO_BE_ORDERED wpDetail + PARTS_TO_BE_ORDERED_POIN wpDetail,
       partsToBeIssued = PARTS_TO_BE_ISSUED wpDetail + PARTS_TO_BE_ISSUED_POIN wpDetail,
       partsEtaPast = PARTS_ETA_PAST wpDetail + PARTS_REQ_ETA_PAST wpDetail,
       cqToApprove = BUYER_CQ_TO_APPROVE wpDetail + TECHOFFICE_CQ_TO_APPROVE wpDetail,
       toolsNotReturned = TOOLS_NOT_RETURNED wpDetail\<rparr>)"

section \<open>Reading and writing the two tiers\<close>

lemma getItem_removeItem:
  "getItem (removeItem ls k) k' = (if k' = k then None else getItem ls k')"
  by (simp add: getItem_def removeItem_def AList.delete_conv')

lemma getItem_setItem:
  "getItem (setItem ls k v) k' = (if k' = k then Some v else getItem ls k')"
  by (simp add: getItem_def setItem_def AList.update_conv')

lemma getFromMemory_miss:
  assumes "\<not> isValid now (memoryCache s key)"
  shows "getFromMemory s now key = (s\<lparr>memoryCache := (memoryCache s)(key := None)\<rparr>, None)"
proof (cases "memoryCache s key")
  case None
  then have "(memoryCache s)(key := None) = memoryCache s"
    by (simp add: fun_upd_idem)
  with None show ?thesis
    by (simp add: getFromMemory_def)
next
  case (Some e)
  with assms show ?thesis
    by (simp add: getFromMemory_def)
qed

text \<open>
  Claim C2, as the code has it. When the fast tier has no valid entry for a key (absent or
  expired) and the durable tier holds an entry for it that is unexpired, \<open>get\<close> returns
  that entry's data, leaves the durable tier as it is, and writes into the fast tier a copy
  stamped with the time of the read and with the default TTL \<open>CACHE_TTL.DEFAULT\<close>: the TTL
  of the durable entry is not carried over.
\<close>

theorem get_promotes_with_default_ttl:
  assumes "\<not> isValid now (memoryCache s key)"
    and "getItem (localStorage s) (STORAGE_PREFIX @ key) = Some (Entry_json e)"
    and "0 < ttl e" and "now - timestamp e < ttl e"
  shows "snd (cache_get s now key) = Some (data e)
    \<and> memoryCache (fst (cache_get s now key)) key =
        Some \<lparr>data = data e, timestamp = now, ttl = CACHE_TTL_DEFAULT\<rparr>
    \<and> localStorage (fst (cache_get s now key)) = localStorage s"
proof -
  define s1 where "s1 = s\<lparr>memoryCache := (memoryCache s)(key := None)\<rparr>"
  have m: "getFromMemory s now key = (s1, None)" and l: "localStorage s1 = localStorage s"
    using assms(1) by (simp_all add: getFromMemory_miss s1_def)
  have g: "getFromStorage s1 now key = (s1, Some (data e))"
    using assms(2-4) by (simp add: getFromStorage_def l)
  show ?thesis
    by (simp add: cache_get_def m g setInMemory_def l)
qed

theorem get_promotes_with_default_ttl_witness:
  "\<not> isValid 1000 (memoryCache (setInStorage cache_initial 0 ''k'' (7::nat) CACHE_TTL_REFERENTIALS) ''k'')
   \<and> getItem (localStorage (setInStorage cache_initial 0 ''k'' (7::nat) CACHE_TTL_REFERENTIALS))
        (STORAGE_PREFIX @ ''k'') =
      Some (Entry_json \<lparr>data = 7, timestamp = 0, ttl = 86400000\<rparr>)
   \<and> snd (cache_get (setInStorage cache_initial 0 ''k'' (7::nat) CACHE_TTL_REFERENTIALS) 1000 ''k'') = Some 7
   \<and> memoryCache (fst (cache_get (setInStorage cache_initial 0 ''k'' (7::nat) CACHE_TTL_REFERENTIALS) 1000 ''k'')) ''k'' =
        Some \<lparr>data = 7, timestamp = 1000, ttl = CACHE_TTL_DEFAULT\<rparr>"
proof -
  let ?s = "setInStorage cache_initial 0 ''k'' (7::nat) CACHE_TTL_REFERENTIALS"
  let ?e = "\<lparr>data = 7::nat, timestamp = 0, ttl = 86400000\<rparr>"
  have h1: "\<not> isValid 1000 (memoryCache ?s ''k'')"
    by (simp add: setInStorage_def cache_initial_def isValid_def)
  have h2: "getItem (localStorage ?s) (STORAGE_PREFIX @ ''k'') = Some (Entry_json ?e)"
    by (simp add: setInStorage_def cache_initial_def getItem_setItem CACHE_TTL_REFERENTIALS_def)
  have h3: "0 < ttl ?e" and h4: "1000 - timestamp ?e < ttl ?e"
    by simp_all
  show ?thesis
    using h1 h2 get_promotes_with_default_ttl [OF h1 h2 h3 h4] by simp
qed

text \<open>
  The claim as written (the copy carries the durable entry's TTL) fails: a referential
  stored for 24 hours and read one second later, with an empty fast tier, is promoted with
  a TTL of 300000 ms.
\<close>

theorem get_promotes_original_ttl_counterexample:
  "getFromMemory (setInStorage cache_initial 0 ''k'' (7::nat) CACHE_TTL_REFERENTIALS) 1000 ''k'' =
     (setInStorage cache_initial 0 ''k'' 7 CACHE_TTL_REFERENTIALS, None)
   \<and> getItem (localStorage (setInStorage cache_initial 0 ''k'' (7::nat) CACHE_TTL_REFERENTIALS))
        (STORAGE_PREFIX @ ''k'') =
      Some (Entry_json \<lparr>data = 7, timestamp = 0, ttl = 86400000\<rparr>)
   \<and> snd (cache_get (setInStorage cache_initial 0 ''k'' (7::nat) CACHE_TTL_REFERENTIALS) 1000 ''k'') = Some 7
   \<and> map_option ttl
        (memoryCache (fst (cache_get (setInStorage cache_initial 0 ''k'' (7::nat) CACHE_TTL_REFERENTIALS) 1000 ''k'')) ''k'') =
      Some 300000
   \<and> map_option ttl
        (memoryCache (fst (cache_get (setInStorage cache_initial 0 ''k'' (7::nat) CACHE_TTL_REFERENTIALS) 1000 ''k'')) ''k'') \<noteq>
      Some 86400000"
  by (simp add: cache_get_def getFromMemory_def getFromStorage_def setInMemory_def
      setInStorage_def cache_initial_def getItem_setItem CACHE_TTL_REFERENTIALS_def
      CACHE_TTL_DEFAULT_def)

text \<open>
  Claim C7, as the code has it. \<open>set(key, v, 0)\<close> never writes to the durable tier, also
  when \<open>persistToStorage\<close> is true, and its entry is expired for the read path at every
  time; a \<open>get\<close> that follows returns absent whenever the durable tier has nothing to
  serve for the key (no entry, or an expired or unreadable one).
\<close>

theorem set_ttl_zero_then_get:
  assumes "snd (getFromStorage s now' key) = None"
  shows "snd (cache_get (cache_set s now key v 0 persistToStorage) now' key) = None
    \<and> localStorage (cache_set s now key v 0 persistToStorage) = localStorage s
    \<and> \<not> isValid now' (memoryCache (cache_set s now key v 0 persistToStorage) key)"
proof -
  let ?s1 = "cache_set s now key v 0 persistToStorage"
  have l: "localStorage ?s1 = localStorage s"
    by (simp add: cache_set_def setInMemory_def)
  have v: "\<not> isValid now' (memoryCache ?s1 key)"
    by (simp add: cache_set_def setInMemory_def isValid_def)
  define s2 where "s2 = ?s1\<lparr>memoryCache := (memoryCache ?s1)(key := None)\<rparr>"
  have m: "getFromMemory ?s1 now' key = (s2, None)" and l2: "localStorage s2 = localStorage s"
    using v l by (simp_all add: getFromMemory_miss s2_def)
  have "snd (getFromStorage s2 now' key) = None"
    using assms l2
    by (auto simp: getFromStorage_def split: option.splits stored_text.splits if_splits)
  then have "snd (cache_get ?s1 now' key) = None"
    by (auto simp: cache_get_def m split: prod.splits option.splits)
  with l v show ?thesis by simp
qed

theorem set_ttl_zero_then_get_witness:
  "snd (getFromStorage (cache_initial :: nat cache_state) 5 ''k'') = None
   \<and> snd (cache_get (cache_set cache_initial 5 ''k'' (2::nat) 0 True) 5 ''k'') = None
   \<and> localStorage (cache_set cache_initial 5 ''k'' (2::nat) 0 True) = []"
proof -
  have h: "snd (getFromStorage (cache_initial :: nat cache_state) 5 ''k'') = None"
    by (simp add: getFromStorage_def cache_initial_def getItem_def)
  have "localStorage (cache_initial :: nat cache_state) = []"
    by (simp add: cache_initial_def)
  with h set_ttl_zero_then_get [OF h, of 5 2 True] show ?thesis by simp
qed

text \<open>
  The claim as written (for every key, absent after \<open>set(key, v, 0)\<close>) fails when the
  durable tier still holds an unexpired entry of the key: \<open>set\<close> with \<open>ttl = 0\<close> leaves it
  there and the read serves it.
\<close>

theorem set_ttl_zero_then_get_counterexample:
  "snd (cache_get
         (cache_set (cache_set cache_initial 0 ''k'' (1::nat) CACHE_TTL_DEFAULT True) 5 ''k'' 2 0 True)
         5 ''k'') = Some 1"
  by (simp add: cache_get_def cache_set_def getFromMemory_def getFromStorage_def setInMemory_def
      setInStorage_def cache_initial_def getItem_setItem CACHE_TTL_DEFAULT_def isValid_def)

section \<open>Coalescing of concurrent callers\<close>

lemma getFromStorage_fields:
  "inFlightRequests (fst (getFromStorage s now key)) = inFlightRequests s"
  "promises (fst (getFromStorage s now key)) = promises s"
  "fetcher_invocations (fst (getFromStorage s now key)) = fetcher_invocations s"
  "inflight_deletions (fst (getFromStorage s now key)) = inflight_deletions s"
  "memoryCache (fst (getFromStorage s now key)) = memoryCache s"
  by (simp_all add: getFromStorage_def split: option.splits stored_text.splits)

lemma getFromMemory_fields:
  "inFlightRequests (fst (getFromMemory s now key)) = inFlightRequests s"
  "promises (fst (getFromMemory s now key)) = promises s"
  "fetcher_invocations (fst (getFromMemory s now key)) = fetcher_invocations s"
  "inflight_deletions (fst (getFromMemory s now key)) = inflight_deletions s"
  "localStorage (fst (getFromMemory s now key)) = localStorage s"
  by (simp_all add: getFromMemory_def split: option.splits)

lemma getFromMemory_None_cleared:
  assumes "getFromMemory s now key = (s1, None)"
  shows "memoryCache s1 key = None"
  using assms by (auto simp: getFromMemory_def split: option.splits if_splits)

lemma cache_get_miss_cases:
  assumes "cache_get s now key = (s2, None)"
  obtains s1 where "getFromMemory s now key = (s1, None)" and "getFromStorage s1 now key = (s2, None)"
  using assms
  by (auto simp: cache_get_def split: prod.splits option.splits)

lemma getFromStorage_miss_unreadable:
  assumes "getFromStorage s now key = (s1, None)"
  shows "case getItem (localStorage s1) (STORAGE_PREFIX @ key) of
           None \<Rightarrow> True | Some (Plain_text t) \<Rightarrow> True
         | Some (Other_json t) \<Rightarrow> False | Some (Entry_json e) \<Rightarrow> False"
  using assms
  by (auto simp: getFromStorage_def getItem_removeItem
      split: option.splits stored_text.splits if_splits)

lemma cache_get_miss_nothing_cached:
  assumes "cache_get s now key = (s2, None)"
  shows "nothing_cached s2 key"
proof -
  from assms obtain s1 where m: "getFromMemory s now key = (s1, None)"
    and g: "getFromStorage s1 now key = (s2, None)"
    by (rule cache_get_miss_cases)
  have "memoryCache s2 key = None"
    using getFromMemory_None_cleared [OF m] getFromStorage_fields(5) [of s1 now key] g by simp
  with getFromStorage_miss_unreadable [OF g] show ?thesis
    by (simp add: nothing_cached_def)
qed

lemma nothing_cached_get:
  assumes "nothing_cached s key"
  shows "cache_get s now key = (s, None)"
proof -
  have "getFromMemory s now key = (s, None)"
    using assms by (simp add: getFromMemory_def nothing_cached_def)
  moreover have "getFromStorage s now key = (s, None)"
    using assms
    by (auto simp: getFromStorage_def nothing_cached_def split: option.splits stored_text.splits)
  ultimately show ?thesis
    by (simp add: cache_get_def)
qed

lemma cache_get_miss_fields:
  assumes "cache_get s now key = (s2, None)"
  shows "inFlightRequests s2 = inFlightRequests s" and "promises s2 = promises s"
    and "fetcher_invocations s2 = fetcher_invocations s"
    and "inflight_deletions s2 = inflight_deletions s"
proof -
  from assms obtain s1 where m: "getFromMemory s now key = (s1, None)"
    and g: "getFromStorage s1 now key = (s2, None)"
    by (rule cache_get_miss_cases)
  have a: "s1 = fst (getFromMemory s now key)" and b: "s2 = fst (getFromStorage s1 now key)"
    using m g by simp_all
  show "inFlightRequests s2 = inFlightRequests s" and "promises s2 = promises s"
    and "fetcher_invocations s2 = fetcher_invocations s"
    and "inflight_deletions s2 = inflight_deletions s"
    unfolding b a by (simp_all only: getFromStorage_fields getFromMemory_fields)
qed

lemma deduplicatedFetch_joins:
  assumes "nothing_cached s key" and "inFlightRequests s key = Some i"
  shows "deduplicatedFetch s now key t persistToStorage = (s, Adopts i)"
  using assms(2) by (simp add: deduplicatedFetch_def getInFlight_def nothing_cached_get [OF assms(1)])

text \<open>
  In any state, whatever happened before: a caller that misses the cache while the key is
  in flight is handed the promise of the table; no fetcher is invoked and the table, the
  promises and the logs stay as they are.
\<close>

lemma deduplicatedFetch_joins_any_state:
  assumes "snd (cache_get s now key) = None" and "getInFlight s key = Some i"
  shows "snd (deduplicatedFetch s now key t persistToStorage) = Adopts i"
    and "fetcher_invocations (fst (deduplicatedFetch s now key t persistToStorage)) =
      fetcher_invocations s"
    and "promises (fst (deduplicatedFetch s now key t persistToStorage)) = promises s"
    and "inFlightRequests (fst (deduplicatedFetch s now key t persistToStorage)) =
      inFlightRequests s"
    and "inflight_deletions (fst (deduplicatedFetch s now key t persistToStorage)) =
      inflight_deletions s"
proof -
  obtain s1 where g: "cache_get s now key = (s1, None)"
    using assms(1) by (cases "cache_get s now key") simp
  note f = cache_get_miss_fields [OF g]
  have d: "deduplicatedFetch s now key t persistToStorage = (s1, Adopts i)"
    using assms(2) by (simp add: deduplicatedFetch_def g getInFlight_def f)
  show "snd (deduplicatedFetch s now key t persistToStorage) = Adopts i"
    and "fetcher_invocations (fst (deduplicatedFetch s now key t persistToStorage)) =
      fetcher_invocations s"
    and "promises (fst (deduplicatedFetch s now key t persistToStorage)) = promises s"
    and "inFlightRequests (fst (deduplicatedFetch s now key t persistToStorage)) =
      inFlightRequests s"
    and "inflight_deletions (fst (deduplicatedFetch s now key t persistToStorage)) =
      inflight_deletions s"
    by (simp_all add: d f)
qed

lemma callers_join:
  assumes "nothing_cached s key" and "inFlightRequests s key = Some i"
  shows "callers s key cs = (s, replicate (length cs) (Adopts i))"
proof (induction cs)
  case Nil
  show ?case by simp
next
  case (Cons c cs)
  obtain now t persistToStorage where c: "c = (now, t, persistToStorage)"
    by (cases c) auto
  show ?case
    by (simp add: c Cons deduplicatedFetch_joins [OF assms])
qed

lemma deduplicatedFetch_starts:
  assumes "cache_get s now key = (s1, None)" and "inFlightRequests s key = None"
  shows "deduplicatedFetch s now key t persistToStorage =
    (s1\<lparr>fetcher_invocations := fetcher_invocations s @ [key],
        promises := promises s @
          [\<lparr>closure_key = key, closure_ttl = t, closure_persist = persistToStorage,
            settled = Pending\<rparr>],
        inFlightRequests := (inFlightRequests s)(key \<mapsto> length (promises s))\<rparr>,
     Adopts (length (promises s)))"
  using assms cache_get_miss_fields [OF assms(1)]
  by (simp add: deduplicatedFetch_def getInFlight_def setInFlight_def Let_def)

lemma cache_set_fields:
  "inFlightRequests (cache_set s now key d t b) = inFlightRequests s"
  "promises (cache_set s now key d t b) = promises s"
  "fetcher_invocations (cache_set s now key d t b) = fetcher_invocations s"
  "inflight_deletions (cache_set s now key d t b) = inflight_deletions s"
  by (simp_all add: cache_set_def setInMemory_def setInStorage_def Let_def)

text \<open>Settling the pending promise \<open>i\<close> of key \<open>k\<close>.\<close>

lemma settle_pending:
  assumes "i < length (promises s)" and "settled (promises s ! i) = Pending"
    and "closure_key (promises s ! i) = k"
  shows "observed (settle s now i outcome) (Adopts i) =
      (case outcome of Inl err \<Rightarrow> Rejected err | Inr d \<Rightarrow> Fulfilled d)"
    and "inFlightRequests (settle s now i outcome) = (inFlightRequests s)(k := None)"
    and "inflight_deletions (settle s now i outcome) = inflight_deletions s @ [k]"
    and "fetcher_invocations (settle s now i outcome) = fetcher_invocations s"
    and "length (promises (settle s now i outcome)) = length (promises s)"
  using assms
  by (cases outcome;
      simp add: settle_def observed_def Let_def finally_callback_def then_callback_def
        cache_set_fields)+

lemma settle_failure_cache:
  "memoryCache (settle s now i (Inl err)) = memoryCache s"
  "localStorage (settle s now i (Inl err)) = localStorage s"
  by (simp_all add: settle_def Let_def finally_callback_def)


lemma nothing_cached_cong:
  assumes "memoryCache s' = memoryCache s" and "localStorage s' = localStorage s"
  shows "nothing_cached s' key = nothing_cached s key"
  by (simp add: nothing_cached_def assms)

text \<open>The state after a first caller has started the operation, and what later callers do.\<close>

lemma first_caller:
  assumes "snd (cache_get s now key) = None" and "getInFlight s key = None"
  obtains sA where
    "deduplicatedFetch s now key t persistToStorage = (sA, Adopts (length (promises s)))"
    and "nothing_cached sA key"
    and "inFlightRequests sA key = Some (length (promises s))"
    and "promises sA = promises s @
          [\<lparr>closure_key = key, closure_ttl = t, closure_persist = persistToStorage,
            settled = Pending\<rparr>]"
    and "fetcher_invocations sA = fetcher_invocations s @ [key]"
    and "inflight_deletions sA = inflight_deletions s"
proof -
  obtain s1 where g: "cache_get s now key = (s1, None)"
    using assms(1) by (cases "cache_get s now key") simp
  define sA where "sA = s1\<lparr>fetcher_invocations := fetcher_invocations s @ [key],
        promises := promises s @
          [\<lparr>closure_key = key, closure_ttl = t, closure_persist = persistToStorage,
            settled = Pending\<rparr>],
        inFlightRequests := (inFlightRequests s)(key \<mapsto> length (promises s))\<rparr>"
  have n: "inFlightRequests s key = None"
    using assms(2) by (simp add: getInFlight_def)
  have 1: "deduplicatedFetch s now key t persistToStorage = (sA, Adopts (length (promises s)))"
    unfolding sA_def using g n by (rule deduplicatedFetch_starts)
  have "nothing_cached sA key = nothing_cached s1 key"
    by (rule nothing_cached_cong) (simp_all add: sA_def)
  then have 2: "nothing_cached sA key"
    using cache_get_miss_nothing_cached [OF g] by simp
  show thesis
    by (rule that [OF 1 2]) (simp_all add: sA_def cache_get_miss_fields [OF g])
qed

text \<open>
  Claim C1. Let the cache have no valid entry for a key and no operation in flight for it,
  and let N callers call \<open>deduplicatedFetch\<close> for the key, the first at that moment and the
  others before the operation settles (each at its own time, with its own \<open>ttl\<close> and
  \<open>persistToStorage\<close>). Then the fetcher is invoked exactly once (one entry is added to the
  log of invocations and one promise is created), every caller is handed the same promise,
  which is in the in-flight table and pending; and when the operation settles, with a
  value or with a failure, every caller observes that outcome, the key is no longer in
  the in-flight table, and the deletion has run exactly once.
\<close>

theorem coalesced_callers:
  assumes "snd (cache_get s now key) = None" and "getInFlight s key = None"
  shows "let calls = (now, t, persistToStorage) # cs;
             p = length (promises s);
             s1 = fst (callers s key calls);
             rs = snd (callers s key calls);
             s2 = settle s1 now' p outcome
         in rs = replicate (length calls) (Adopts p)
          \<and> fetcher_invocations s1 = fetcher_invocations s @ [key]
          \<and> length (promises s1) = length (promises s) + 1
          \<and> getInFlight s1 key = Some p
          \<and> map (observed s1) rs = replicate (length calls) Pending
          \<and> inflight_deletions s1 = inflight_deletions s
          \<and> map (observed s2) rs =
              replicate (length calls) (case outcome of Inl err \<Rightarrow> Rejected err | Inr d \<Rightarrow> Fulfilled d)
          \<and> getInFlight s2 key = None
          \<and> inflight_deletions s2 = inflight_deletions s @ [key]
          \<and> fetcher_invocations s2 = fetcher_invocations s @ [key]
          \<and> length (promises s2) = length (promises s) + 1"
proof -
  let ?p = "length (promises s)"
  from assms obtain sA where
    d: "deduplicatedFetch s now key t persistToStorage = (sA, Adopts ?p)"
    and q: "nothing_cached sA key"
    and i: "inFlightRequests sA key = Some ?p"
    and ps: "promises sA = promises s @
          [\<lparr>closure_key = key, closure_ttl = t, closure_persist = persistToStorage,
            settled = Pending\<rparr>]"
    and f: "fetcher_invocations sA = fetcher_invocations s @ [key]"
    and del: "inflight_deletions sA = inflight_deletions s"
    by (rule first_caller)
  have c: "callers s key ((now, t, persistToStorage) # cs) =
      (sA, replicate (Suc (length cs)) (Adopts ?p))"
    by (simp add: d callers_join [OF q i])
  have lt: "?p < length (promises sA)" and pend: "settled (promises sA ! ?p) = Pending"
    and k: "closure_key (promises sA ! ?p) = key"
    by (simp_all add: ps)
  note st = settle_pending [OF lt pend k, of now' outcome]
  have o1: "observed sA (Adopts ?p) = Pending"
    by (simp add: observed_def ps)
  show ?thesis
    unfolding Let_def c fst_conv snd_conv
    by (simp add: f del i getInFlight_def map_replicate o1 st ps)
qed

text \<open>
  Claim C6. For every key, \<open>ttl\<close> and \<open>persistToStorage\<close>: when the operation that
  \<open>deduplicatedFetch\<close> started fails, the callers observe the failure, neither tier of the
  cache is written (both are as they were before the failure), the key leaves the
  in-flight table, and the next caller, at any time, misses the cache and starts a fresh
  operation: the fetcher is invoked a second time and a new pending promise is returned.
\<close>

theorem failure_is_not_cached:
  assumes "snd (cache_get s now key) = None" and "getInFlight s key = None"
  shows "let p = length (promises s);
             s1 = fst (deduplicatedFetch s now key t persistToStorage);
             s2 = settle s1 now1 p (Inl err);
             s3 = fst (deduplicatedFetch s2 now2 key t2 persist2)
         in snd (deduplicatedFetch s now key t persistToStorage) = Adopts p
          \<and> observed s2 (Adopts p) = Rejected err
          \<and> memoryCache s2 = memoryCache s1
          \<and> localStorage s2 = localStorage s1
          \<and> snd (cache_get s2 now2 key) = None
          \<and> getInFlight s2 key = None
          \<and> snd (deduplicatedFetch s2 now2 key t2 persist2) = Adopts (p + 1)
          \<and> observed s3 (Adopts (p + 1)) = Pending
          \<and> fetcher_invocations s3 = fetcher_invocations s @ [key, key]"
proof -
  let ?p = "length (promises s)"
  from assms obtain sA where
    d: "deduplicatedFetch s now key t persistToStorage = (sA, Adopts ?p)"
    and q: "nothing_cached sA key"
    and i: "inFlightRequests sA key = Some ?p"
    and ps: "promises sA = promises s @
          [\<lparr>closure_key = key, closure_ttl = t, closure_persist = persistToStorage,
            settled = Pending\<rparr>]"
    and f: "fetcher_invocations sA = fetcher_invocations s @ [key]"
    and del: "inflight_deletions sA = inflight_deletions s"
    by (rule first_caller)
  define s2 where "s2 = settle sA now1 ?p (Inl err)"
  have lt: "?p < length (promises sA)" and pend: "settled (promises sA ! ?p) = Pending"
    and k: "closure_key (promises sA ! ?p) = key"
    by (simp_all add: ps)
  note st = settle_pending [OF lt pend k, of now1 "Inl err", folded s2_def]
  note fc = settle_failure_cache [of sA now1 ?p err, folded s2_def]
  have q2: "nothing_cached s2 key"
    using q nothing_cached_cong [OF fc] by simp
  have g2: "cache_get s2 now2 key = (s2, None)"
    using q2 by (rule nothing_cached_get)
  have n2: "inFlightRequests s2 key = None"
    by (simp add: st(2))
  have l2: "length (promises s2) = ?p + 1"
    by (simp add: st(5) ps)
  note d2 = deduplicatedFetch_starts [OF g2 n2, of t2 persist2]
  have o3: "observed (fst (deduplicatedFetch s2 now2 key t2 persist2)) (Adopts (?p + 1)) = Pending"
    using l2 by (simp add: d2 observed_def nth_append)
  have f3: "fetcher_invocations (fst (deduplicatedFetch s2 now2 key t2 persist2)) =
      fetcher_invocations s @ [key, key]"
    by (simp add: d2 st(4) f)
  show ?thesis
    unfolding Let_def d fst_conv snd_conv s2_def [symmetric]
    using o3 f3 by (simp add: st(1) fc g2 n2 getInFlight_def d2 l2)
qed


lemma cache_initial_fields:
  "promises (cache_initial :: 'a cache_state) = []"
  "fetcher_invocations (cache_initial :: 'a cache_state) = []"
  "inflight_deletions (cache_initial :: 'a cache_state) = []"
  "getInFlight (cache_initial :: 'a cache_state) k = None"
  "snd (cache_get (cache_initial :: 'a cache_state) now k) = None"
  by (simp_all add: cache_initial_def getInFlight_def cache_get_def getFromMemory_def
      getFromStorage_def getItem_def)

theorem coalesced_callers_witness:
  "snd (cache_get (cache_initial :: nat cache_state) 0 ''k'') = None
   \<and> getInFlight (cache_initial :: nat cache_state) ''k'' = None
   \<and> snd (callers (cache_initial :: nat cache_state) ''k''
        [(0, 300000, True), (1, 60000, False), (2, 0, True)]) = [Adopts 0, Adopts 0, Adopts 0]
   \<and> fetcher_invocations (fst (callers (cache_initial :: nat cache_state) ''k''
        [(0, 300000, True), (1, 60000, False), (2, 0, True)])) = [''k'']
   \<and> map (observed (settle (fst (callers (cache_initial :: nat cache_state) ''k''
        [(0, 300000, True), (1, 60000, False), (2, 0, True)])) 10 0 (Inr 7)))
        (snd (callers (cache_initial :: nat cache_state) ''k''
        [(0, 300000, True), (1, 60000, False), (2, 0, True)])) = [Fulfilled 7, Fulfilled 7, Fulfilled 7]
   \<and> getInFlight (settle (fst (callers (cache_initial :: nat cache_state) ''k''
        [(0, 300000, True), (1, 60000, False), (2, 0, True)])) 10 0 (Inr 7)) ''k'' = None
   \<and> inflight_deletions (settle (fst (callers (cache_initial :: nat cache_state) ''k''
        [(0, 300000, True), (1, 60000, False), (2, 0, True)])) 10 0 (Inr 7)) = [''k'']
   \<and> fetcher_invocations (settle (fst (callers (cache_initial :: nat cache_state) ''k''
        [(0, 300000, True), (1, 60000, False), (2, 0, True)])) 10 0 (Inr 7)) = [''k'']"
proof -
  have h1: "snd (cache_get (cache_initial :: nat cache_state) 0 ''k'') = None"
    and h2: "getInFlight (cache_initial :: nat cache_state) ''k'' = None"
    by (simp_all add: cache_initial_fields)
  show ?thesis
    using h1 h2
      coalesced_callers [OF h1 h2, of 300000 True "[(1, 60000, False), (2, 0, True)]" 10 "Inr 7"]
    by (clarsimp simp add: Let_def cache_initial_fields simp del: callers.simps)
qed

theorem failure_is_not_cached_witness:
  "snd (cache_get (cache_initial :: nat cache_state) 0 ''k'') = None
   \<and> getInFlight (cache_initial :: nat cache_state) ''k'' = None
   \<and> snd (deduplicatedFetch (cache_initial :: nat cache_state) 0 ''k'' 300000 True) = Adopts 0
   \<and> localStorage (settle (fst (deduplicatedFetch (cache_initial :: nat cache_state) 0 ''k'' 300000 True))
        10 0 (Inl \<lparr>instanceof_Error = True, instanceof_TypeError = False,
                   thrown_name = ''Error'', thrown_message = ''HTTP 500: down''\<rparr>)) =
      localStorage (fst (deduplicatedFetch (cache_initial :: nat cache_state) 0 ''k'' 300000 True))
   \<and> memoryCache (settle (fst (deduplicatedFetch (cache_initial :: nat cache_state) 0 ''k'' 300000 True))
        10 0 (Inl \<lparr>instanceof_Error = True, instanceof_TypeError = False,
                   thrown_name = ''Error'', thrown_message = ''HTTP 500: down''\<rparr>)) =
      memoryCache (fst (deduplicatedFetch (cache_initial :: nat cache_state) 0 ''k'' 300000 True))
   \<and> snd (deduplicatedFetch
        (settle (fst (deduplicatedFetch (cache_initial :: nat cache_state) 0 ''k'' 300000 True))
          10 0 (Inl \<lparr>instanceof_Error = True, instanceof_TypeError = False,
                     thrown_name = ''Error'', thrown_message = ''HTTP 500: down''\<rparr>))
        10 ''k'' 300000 True) = Adopts 1
   \<and> fetcher_invocations (fst (deduplicatedFetch
        (settle (fst (deduplicatedFetch (cache_initial :: nat cache_state) 0 ''k'' 300000 True))
          10 0 (Inl \<lparr>instanceof_Error = True, instanceof_TypeError = False,
                     thrown_name = ''Error'', thrown_message = ''HTTP 500: down''\<rparr>))
        10 ''k'' 300000 True)) = [''k'', ''k'']"
proof -
  have h1: "snd (cache_get (cache_initial :: nat cache_state) 0 ''k'') = None"
    and h2: "getInFlight (cache_initial :: nat cache_state) ''k'' = None"
    by (simp_all add: cache_initial_fields)
  show ?thesis
    using h1 h2
      failure_is_not_cached [OF h1 h2, of 300000 True 10
        "\<lparr>instanceof_Error = True, instanceof_TypeError = False,
          thrown_name = ''Error'', thrown_message = ''HTTP 500: down''\<rparr>" 10 300000 True]
    by (simp add: Let_def cache_initial_fields)
qed

section \<open>The durable tier is cleared by prefix\<close>

lemma clearAll_loop_filter:
  "clearAll_loop ls i acc =
     acc @ filter (\<lambda>k. k \<noteq> [] \<and> prefix STORAGE_PREFIX k) (map fst (drop i ls))"
proof (induction ls i acc rule: clearAll_loop.induct)
  case (1 ls i keysToRemove)
  show ?case
  proof (cases "i < length ls")
    case True
    then have d: "drop i ls = ls ! i # drop (Suc i) ls"
      by (simp add: Cons_nth_drop_Suc)
    show ?thesis
      using True 1 [OF True refl]
      by (subst clearAll_loop.simps) (simp add: d Let_def)
  next
    case False
    then show ?thesis
      by (subst clearAll_loop.simps) simp
  qed
qed

lemma removeItem_filter: "removeItem ls k = filter (\<lambda>(k', v). k' \<noteq> k) ls"
  by (simp add: removeItem_def AList.delete_eq case_prod_unfold) (metis)

lemma foldl_removeItem:
  "foldl removeItem ls ks = filter (\<lambda>(k, v). k \<notin> set ks) ls"
proof (induction ks arbitrary: ls)
  case Nil
  then show ?case by simp
next
  case (Cons a ks)
  have "foldl removeItem ls (a # ks) = foldl removeItem (removeItem ls a) ks"
    by simp
  also have "\<dots> = filter (\<lambda>(k, v). k \<notin> set ks) (removeItem ls a)"
    by (rule Cons.IH)
  also have "\<dots> = filter (\<lambda>(k, v). k \<notin> set (a # ks)) ls"
    unfolding removeItem_filter by (induction ls) auto
  finally show ?case .
qed

lemma STORAGE_PREFIX_nonempty: "prefix STORAGE_PREFIX k \<Longrightarrow> k \<noteq> []"
  by (auto simp: STORAGE_PREFIX_def)

lemma clearAll_storage:
  "localStorage (clearAll s) = filter (\<lambda>(k, v). \<not> prefix STORAGE_PREFIX k) (localStorage s)"
proof -
  have "set (clearAll_loop (localStorage s) 0 []) =
      {k \<in> fst ` set (localStorage s). prefix STORAGE_PREFIX k}"
    by (auto simp: clearAll_loop_filter dest: STORAGE_PREFIX_nonempty)
  then have "(\<lambda>(k, v). k \<notin> set (clearAll_loop (localStorage s) 0 [])) p =
      (\<lambda>(k, v). \<not> prefix STORAGE_PREFIX k) p" if "p \<in> set (localStorage s)" for p
    using that by (force simp: case_prod_unfold)
  then show ?thesis
    by (simp add: clearAll_def Let_def foldl_removeItem cong: filter_cong)
qed

text \<open>
  Claim C9. In every state of the storage, \<open>clearAll\<close> removes exactly the pairs whose key
  starts with \<open>ams_cache_\<close> and keeps every other pair, in place and unchanged: a key with
  the prefix is absent afterwards, any other key reads as before. In particular the
  session token (\<open>erpToken\<close>, written by \<open>saveToken\<close>) and the session settings
  (\<open>erpApiSettings\<close>) are not disturbed.
\<close>

theorem clearAll_frame:
  "localStorage (clearAll s) = filter (\<lambda>(k, v). \<not> prefix STORAGE_PREFIX k) (localStorage s)
   \<and> getItem (localStorage (clearAll s)) k =
       (if prefix STORAGE_PREFIX k then None else getItem (localStorage s) k)
   \<and> getStoredToken (clearAll s) = getStoredToken s
   \<and> getStoredApiSettings (clearAll s) = getStoredApiSettings s
   \<and> getStoredToken (clearAll (saveToken s token)) = Some (Plain_text token)"
proof -
  have g: "getItem (filter (\<lambda>(k, v). \<not> prefix STORAGE_PREFIX k) ls) k =
       (if prefix STORAGE_PREFIX k then None else getItem ls k)" for ls :: "'a storage" and k
    by (induction ls) (auto simp: getItem_def)
  have t: "\<not> prefix STORAGE_PREFIX ''erpToken''" "\<not> prefix STORAGE_PREFIX ''erpApiSettings''"
    by (simp_all add: STORAGE_PREFIX_def)
  have u: "getItem (setItem ls k v) k = Some v" for ls :: "'a storage" and k v
    by (simp add: setItem_def getItem_def AList.update_conv')
  show ?thesis
    by (simp add: clearAll_storage g t u getStoredToken_def getStoredApiSettings_def
        saveToken_def)
qed

section \<open>Bootstrap runs\<close>

lemma bootstrapReferentials_starts:
  assumes "bootstrapPromise s = None" and "\<not> isBootstrapped s"
  shows "bootstrapReferentials s =
    (s\<lparr>bootstrapPromise := Some (length (attempts s)), attempts := attempts s @ [Pending]\<rparr>,
     Adopts (length (attempts s)))"
  using assms by (simp add: bootstrapReferentials_def Let_def)

lemma catch_empty_Inr:
  "catch_empty outcome = Inr (case outcome of Inl e \<Rightarrow> [] | Inr refs \<Rightarrow> refs)"
  by (cases outcome) (simp_all add: catch_empty_def)

lemma fan_in_pending:
  assumes "p < length (attempts s)" and "attempts s ! p = Pending"
  shows "referentialStore (fan_in s p outcomes) =
       \<lparr>acTypes = (case genAcType outcomes of Inl e \<Rightarrow> [] | Inr refs \<Rightarrow> refs),
        acFleet = (case genAcFleet outcomes of Inl e \<Rightarrow> [] | Inr refs \<Rightarrow> refs),
        settings = (case genSettings outcomes of Inl e \<Rightarrow> [] | Inr refs \<Rightarrow> refs),
        atas = (case genAta outcomes of Inl e \<Rightarrow> [] | Inr refs \<Rightarrow> refs),
        taskTypes = (case genTaskType outcomes of Inl e \<Rightarrow> [] | Inr refs \<Rightarrow> refs),
        craTypes = (case genCraType outcomes of Inl e \<Rightarrow> [] | Inr refs \<Rightarrow> refs),
        delays = (case genDelay outcomes of Inl e \<Rightarrow> [] | Inr refs \<Rightarrow> refs),
        movUrgs = (case genMovUrg outcomes of Inl e \<Rightarrow> [] | Inr refs \<Rightarrow> refs),
        specialities = (case genSpeciality outcomes of Inl e \<Rightarrow> [] | Inr refs \<Rightarrow> refs),
        pnTypes = (case genPnType outcomes of Inl e \<Rightarrow> [] | Inr refs \<Rightarrow> refs),
        movTypes = (case genMovType outcomes of Inl e \<Rightarrow> [] | Inr refs \<Rightarrow> refs)\<rparr>"
    and "isBootstrapped (fan_in s p outcomes)"
    and "bootstrapPromise (fan_in s p outcomes) = None"
    and "attempts (fan_in s p outcomes) = (attempts s)[p := Fulfilled ()]"
  using assms by (simp_all add: fan_in_def catch_empty_Inr)

lemmas accessors_def =
  getAcTypes_def getAcFleet_def getSettings_def getAtas_def getTaskTypes_def getCraTypes_def
  getDelays_def getMovUrgs_def getSpecialities_def getPnTypes_def getMovTypes_def

text \<open>
  Claim C8. A bootstrap run, started by \<open>bootstrapReferentials\<close> when none is running and
  the referentials are not loaded, whatever fetches of its fan-out fail: the promise
  handed to the caller is fulfilled, never rejected; afterwards the accessor of each list
  whose fetch failed returns the empty list and the accessor of each list whose fetch
  succeeded returns the fetched data; \<open>isReferentialsLoaded\<close> is true.
\<close>

theorem bootstrap_partial_failure:
  assumes "bootstrapPromise s = None" and "\<not> isBootstrapped s"
  shows "let p = length (attempts s);
             s1 = fst (bootstrapReferentials s);
             s2 = fan_in s1 p outcomes
         in snd (bootstrapReferentials s) = Adopts p
          \<and> attempts s1 ! p = Pending
          \<and> attempts s2 ! p = Fulfilled ()
          \<and> isReferentialsLoaded s2
          \<and> bootstrapPromise s2 = None
          \<and> getAcTypes s2 = (case genAcType outcomes of Inl e \<Rightarrow> [] | Inr refs \<Rightarrow> refs)
          \<and> getAcFleet s2 = (case genAcFleet outcomes of Inl e \<Rightarrow> [] | Inr refs \<Rightarrow> refs)
          \<and> getSettings s2 = (case genSettings outcomes of Inl e \<Rightarrow> [] | Inr refs \<Rightarrow> refs)
          \<and> getAtas s2 = (case genAta outcomes of Inl e \<Rightarrow> [] | Inr refs \<Rightarrow> refs)
          \<and> getTaskTypes s2 = (case genTaskType outcomes of Inl e \<Rightarrow> [] | Inr refs \<Rightarrow> refs)
          \<and> getCraTypes s2 = (case genCraType outcomes of Inl e \<Rightarrow> [] | Inr refs \<Rightarrow> refs)
          \<and> getDelays s2 = (case genDelay outcomes of Inl e \<Rightarrow> [] | Inr refs \<Rightarrow> refs)
          \<and> getMovUrgs s2 = (case genMovUrg outcomes of Inl e \<Rightarrow> [] | Inr refs \<Rightarrow> refs)
          \<and> getSpecialities s2 = (case genSpeciality outcomes of Inl e \<Rightarrow> [] | Inr refs \<Rightarrow> refs)
          \<and> getPnTypes s2 = (case genPnType outcomes of Inl e \<Rightarrow> [] | Inr refs \<Rightarrow> refs)
          \<and> getMovTypes s2 = (case genMovType outcomes of Inl e \<Rightarrow> [] | Inr refs \<Rightarrow> refs)"
proof -
  let ?p = "length (attempts s)"
  let ?s1 = "s\<lparr>bootstrapPromise := Some ?p, attempts := attempts s @ [Pending]\<rparr>"
  have b: "bootstrapReferentials s = (?s1, Adopts ?p)"
    using assms by (rule bootstrapReferentials_starts)
  have lt: "?p < length (attempts ?s1)" and pend: "attempts ?s1 ! ?p = Pending"
    by simp_all
  note f = fan_in_pending [OF lt pend, of outcomes]
  show ?thesis
    unfolding Let_def b fst_conv snd_conv
    by (simp add: f accessors_def isReferentialsLoaded_def)
qed

text \<open>
  Claim C3, as the code has it. When \<open>resetBootstrap\<close> is called while the fan-out of a
  prior call is in flight, the snapshot is empty, the flag is false and the handle is
  cleared at once, but the attempt is still pending and carries no tag: when its result
  arrives after the reset, it replaces the snapshot and sets the loaded flag, so the
  accessors and \<open>isReferentialsLoaded\<close> show it.
\<close>

theorem late_result_after_reset:
  assumes "bootstrapPromise s = None" and "\<not> isBootstrapped s"
  shows "let p = length (attempts s);
             s1 = resetBootstrap (fst (bootstrapReferentials s));
             s2 = fan_in s1 p outcomes
         in referentialStore s1 = emptyStore
          \<and> \<not> isReferentialsLoaded s1
          \<and> bootstrapPromise s1 = None
          \<and> attempts s1 ! p = Pending
          \<and> isReferentialsLoaded s2
          \<and> getAcTypes s2 = (case genAcType outcomes of Inl e \<Rightarrow> [] | Inr refs \<Rightarrow> refs)
          \<and> getAcFleet s2 = (case genAcFleet outcomes of Inl e \<Rightarrow> [] | Inr refs \<Rightarrow> refs)
          \<and> getSettings s2 = (case genSettings outcomes of Inl e \<Rightarrow> [] | Inr refs \<Rightarrow> refs)
          \<and> getAtas s2 = (case genAta outcomes of Inl e \<Rightarrow> [] | Inr refs \<Rightarrow> refs)
          \<and> getTaskTypes s2 = (case genTaskType outcomes of Inl e \<Rightarrow> [] | Inr refs \<Rightarrow> refs)
          \<and> getCraTypes s2 = (case genCraType outcomes of Inl e \<Rightarrow> [] | Inr refs \<Rightarrow> refs)
          \<and> getDelays s2 = (case genDelay outcomes of Inl e \<Rightarrow> [] | Inr refs \<Rightarrow> refs)
          \<and> getMovUrgs s2 = (case genMovUrg outcomes of Inl e \<Rightarrow> [] | Inr refs \<Rightarrow> refs)
          \<and> getSpecialities s2 = (case genSpeciality outcomes of Inl e \<Rightarrow> [] | Inr refs \<Rightarrow> refs)
          \<and> getPnTypes s2 = (case genPnType outcomes of Inl e \<Rightarrow> [] | Inr refs \<Rightarrow> refs)
          \<and> getMovTypes s2 = (case genMovType outcomes of Inl e \<Rightarrow> [] | Inr refs \<Rightarrow> refs)"
proof -
  let ?p = "length (attempts s)"
  let ?s1 = "resetBootstrap (s\<lparr>bootstrapPromise := Some ?p, attempts := attempts s @ [Pending]\<rparr>)"
  have b: "bootstrapReferentials s =
      (s\<lparr>bootstrapPromise := Some ?p, attempts := attempts s @ [Pending]\<rparr>, Adopts ?p)"
    using assms by (rule bootstrapReferentials_starts)
  have lt: "?p < length (attempts ?s1)" and pend: "attempts ?s1 ! ?p = Pending"
    by (simp_all add: resetBootstrap_def)
  note f = fan_in_pending [OF lt pend, of outcomes]
  have r: "referentialStore ?s1 = emptyStore" "\<not> isReferentialsLoaded ?s1"
    "bootstrapPromise ?s1 = None"
    by (simp_all add: resetBootstrap_def isReferentialsLoaded_def)
  show ?thesis
    unfolding Let_def b fst_conv snd_conv
    using r pend by (simp add: f accessors_def isReferentialsLoaded_def)
qed


lemma bootstrap_initial_fields:
  "bootstrapPromise bootstrap_initial = None" "\<not> isBootstrapped bootstrap_initial"
  "attempts bootstrap_initial = []"
  by (simp_all add: bootstrap_initial_def)

theorem bootstrap_partial_failure_witness:
  "bootstrapPromise bootstrap_initial = None
   \<and> \<not> isBootstrapped bootstrap_initial
   \<and> snd (bootstrapReferentials bootstrap_initial) = Adopts 0
   \<and> attempts (fan_in (fst (bootstrapReferentials bootstrap_initial)) 0
        \<lparr>genAcType = Inr [\<lparr>ID = 1, CODE = ''A320'', LABEL = ''Airbus A320''\<rparr>],
          genAcFleet = Inr [\<lparr>ID = 7, CODE = ''F-GKXA'', LABEL = ''MSN 1502''\<rparr>],
          genSettings = Inr [], genAta = Inl \<lparr>instanceof_Error = True, instanceof_TypeError = False,
            thrown_name = ''Error'', thrown_message = ''HTTP 404: Not Found''\<rparr>,
          genTaskType = Inr [], genCraType = Inr [], genDelay = Inr [], genMovUrg = Inr [],
          genSpeciality = Inr [], genPnType = Inr [], genMovType = Inr []\<rparr>) ! 0 = Fulfilled ()
   \<and> isReferentialsLoaded (fan_in (fst (bootstrapReferentials bootstrap_initial)) 0
        \<lparr>genAcType = Inr [\<lparr>ID = 1, CODE = ''A320'', LABEL = ''Airbus A320''\<rparr>],
          genAcFleet = Inr [\<lparr>ID = 7, CODE = ''F-GKXA'', LABEL = ''MSN 1502''\<rparr>],
          genSettings = Inr [], genAta = Inl \<lparr>instanceof_Error = True, instanceof_TypeError = False,
            thrown_name = ''Error'', thrown_message = ''HTTP 404: Not Found''\<rparr>,
          genTaskType = Inr [], genCraType = Inr [], genDelay = Inr [], genMovUrg = Inr [],
          genSpeciality = Inr [], genPnType = Inr [], genMovType = Inr []\<rparr>)
   \<and> getAcTypes (fan_in (fst (bootstrapReferentials bootstrap_initial)) 0
        \<lparr>genAcType = Inr [\<lparr>ID = 1, CODE = ''A320'', LABEL = ''Airbus A320''\<rparr>],
          genAcFleet = Inr [\<lparr>ID = 7, CODE = ''F-GKXA'', LABEL = ''MSN 1502''\<rparr>],
          genSettings = Inr [], genAta = Inl \<lparr>instanceof_Error = True, instanceof_TypeError = False,
            thrown_name = ''Error'', thrown_message = ''HTTP 404: Not Found''\<rparr>,
          genTaskType = Inr [], genCraType = Inr [], genDelay = Inr [], genMovUrg = Inr [],
          genSpeciality = Inr [], genPnType = Inr [], genMovType = Inr []\<rparr>) = [\<lparr>ID = 1, CODE = ''A320'', LABEL = ''Airbus A320''\<rparr>]
   \<and> getAcFleet (fan_in (fst (bootstrapReferentials bootstrap_initial)) 0
        \<lparr>genAcType = Inr [\<lparr>ID = 1, CODE = ''A320'', LABEL = ''Airbus A320''\<rparr>],
          genAcFleet = Inr [\<lparr>ID = 7, CODE = ''F-GKXA'', LABEL = ''MSN 1502''\<rparr>],
          genSettings = Inr [], genAta = Inl \<lparr>instanceof_Error = True, instanceof_TypeError = False,
            thrown_name = ''Error'', thrown_message = ''HTTP 404: Not Found''\<rparr>,
          genTaskType = Inr [], genCraType = Inr [], genDelay = Inr [], genMovUrg = Inr [],
          genSpeciality = Inr [], genPnType = Inr [], genMovType = Inr []\<rparr>) = [\<lparr>ID = 7, CODE = ''F-GKXA'', LABEL = ''MSN 1502''\<rparr>]
   \<and> getAtas (fan_in (fst (bootstrapReferentials bootstrap_initial)) 0
        \<lparr>genAcType = Inr [\<lparr>ID = 1, CODE = ''A320'', LABEL = ''Airbus A320''\<rparr>],
          genAcFleet = Inr [\<lparr>ID = 7, CODE = ''F-GKXA'', LABEL = ''MSN 1502''\<rparr>],
          genSettings = Inr [], genAta = Inl \<lparr>instanceof_Error = True, instanceof_TypeError = False,
            thrown_name = ''Error'', thrown_message = ''HTTP 404: Not Found''\<rparr>,
          genTaskType = Inr [], genCraType = Inr [], genDelay = Inr [], genMovUrg = Inr [],
          genSpeciality = Inr [], genPnType = Inr [], genMovType = Inr []\<rparr>) = []"
proof -
  have h1: "bootstrapPromise bootstrap_initial = None" and h2: "\<not> isBootstrapped bootstrap_initial"
    by (simp_all add: bootstrap_initial_fields)
  show ?thesis
    using h1 h2 bootstrap_partial_failure [OF h1 h2, of "\<lparr>genAcType = Inr [\<lparr>ID = 1, CODE = ''A320'', LABEL = ''Airbus A320''\<rparr>],
          genAcFleet = Inr [\<lparr>ID = 7, CODE = ''F-GKXA'', LABEL = ''MSN 1502''\<rparr>],
          genSettings = Inr [], genAta = Inl \<lparr>instanceof_Error = True, instanceof_TypeError = False,
            thrown_name = ''Error'', thrown_message = ''HTTP 404: Not Found''\<rparr>,
          genTaskType = Inr [], genCraType = Inr [], genDelay = Inr [], genMovUrg = Inr [],
          genSpeciality = Inr [], genPnType = Inr [], genMovType = Inr []\<rparr>"]
    by (clarsimp simp add: Let_def bootstrap_initial_fields)
qed

theorem late_result_after_reset_witness:
  "bootstrapPromise bootstrap_initial = None
   \<and> \<not> isBootstrapped bootstrap_initial
   \<and> referentialStore (resetBootstrap (fst (bootstrapReferentials bootstrap_initial))) = emptyStore
   \<and> \<not> isReferentialsLoaded (resetBootstrap (fst (bootstrapReferentials bootstrap_initial)))
   \<and> isReferentialsLoaded (fan_in (resetBootstrap (fst (bootstrapReferentials bootstrap_initial))) 0
        \<lparr>genAcType = Inr [\<lparr>ID = 1, CODE = ''A320'', LABEL = ''Airbus A320''\<rparr>],
          genAcFleet = Inr [\<lparr>ID = 7, CODE = ''F-GKXA'', LABEL = ''MSN 1502''\<rparr>],
          genSettings = Inr [], genAta = Inl \<lparr>instanceof_Error = True, instanceof_TypeError = False,
            thrown_name = ''Error'', thrown_message = ''HTTP 404: Not Found''\<rparr>,
          genTaskType = Inr [], genCraType = Inr [], genDelay = Inr [], genMovUrg = Inr [],
          genSpeciality = Inr [], genPnType = Inr [], genMovType = Inr []\<rparr>)
   \<and> getAcFleet (fan_in (resetBootstrap (fst (bootstrapReferentials bootstrap_initial))) 0
        \<lparr>genAcType = Inr [\<lparr>ID = 1, CODE = ''A320'', LABEL = ''Airbus A320''\<rparr>],
          genAcFleet = Inr [\<lparr>ID = 7, CODE = ''F-GKXA'', LABEL = ''MSN 1502''\<rparr>],
          genSettings = Inr [], genAta = Inl \<lparr>instanceof_Error = True, instanceof_TypeError = False,
            thrown_name = ''Error'', thrown_message = ''HTTP 404: Not Found''\<rparr>,
          genTaskType = Inr [], genCraType = Inr [], genDelay = Inr [], genMovUrg = Inr [],
          genSpeciality = Inr [], genPnType = Inr [], genMovType = Inr []\<rparr>) = [\<lparr>ID = 7, CODE = ''F-GKXA'', LABEL = ''MSN 1502''\<rparr>]
   \<and> getAtas (fan_in (resetBootstrap (fst (bootstrapReferentials bootstrap_initial))) 0
        \<lparr>genAcType = Inr [\<lparr>ID = 1, CODE = ''A320'', LABEL = ''Airbus A320''\<rparr>],
          genAcFleet = Inr [\<lparr>ID = 7, CODE = ''F-GKXA'', LABEL = ''MSN 1502''\<rparr>],
          genSettings = Inr [], genAta = Inl \<lparr>instanceof_Error = True, instanceof_TypeError = False,
            thrown_name = ''Error'', thrown_message = ''HTTP 404: Not Found''\<rparr>,
          genTaskType = Inr [], genCraType = Inr [], genDelay = Inr [], genMovUrg = Inr [],
          genSpeciality = Inr [], genPnType = Inr [], genMovType = Inr []\<rparr>) = []"
proof -
  have h1: "bootstrapPromise bootstrap_initial = None" and h2: "\<not> isBootstrapped bootstrap_initial"
    by (simp_all add: bootstrap_initial_fields)
  show ?thesis
    using h1 h2 late_result_after_reset [OF h1 h2, of "\<lparr>genAcType = Inr [\<lparr>ID = 1, CODE = ''A320'', LABEL = ''Airbus A320''\<rparr>],
          genAcFleet = Inr [\<lparr>ID = 7, CODE = ''F-GKXA'', LABEL = ''MSN 1502''\<rparr>],
          genSettings = Inr [], genAta = Inl \<lparr>instanceof_Error = True, instanceof_TypeError = False,
            thrown_name = ''Error'', thrown_message = ''HTTP 404: Not Found''\<rparr>,
          genTaskType = Inr [], genCraType = Inr [], genDelay = Inr [], genMovUrg = Inr [],
          genSpeciality = Inr [], genPnType = Inr [], genMovType = Inr []\<rparr>"]
    by (clarsimp simp add: Let_def bootstrap_initial_fields)
qed

text \<open>
  The claim as written (the late result of a superseded attempt is never observable)
  fails: after a bootstrap is started, reset, and its fan-out then completes, the list of
  aircraft types is back and the flag is true.
\<close>

theorem reset_discards_late_result_counterexample:
  "\<not> isReferentialsLoaded (resetBootstrap (fst (bootstrapReferentials bootstrap_initial)))
   \<and> getAcTypes (resetBootstrap (fst (bootstrapReferentials bootstrap_initial))) = []
   \<and> attempts (resetBootstrap (fst (bootstrapReferentials bootstrap_initial))) ! 0 = Pending
   \<and> isReferentialsLoaded (fan_in (resetBootstrap (fst (bootstrapReferentials bootstrap_initial))) 0
        \<lparr>genAcType = Inr [\<lparr>ID = 1, CODE = ''A320'', LABEL = ''Airbus A320''\<rparr>],
          genAcFleet = Inr [\<lparr>ID = 7, CODE = ''F-GKXA'', LABEL = ''MSN 1502''\<rparr>],
          genSettings = Inr [], genAta = Inl \<lparr>instanceof_Error = True, instanceof_TypeError = False,
            thrown_name = ''Error'', thrown_message = ''HTTP 404: Not Found''\<rparr>,
          genTaskType = Inr [], genCraType = Inr [], genDelay = Inr [], genMovUrg = Inr [],
          genSpeciality = Inr [], genPnType = Inr [], genMovType = Inr []\<rparr>)
   \<and> getAcTypes (fan_in (resetBootstrap (fst (bootstrapReferentials bootstrap_initial))) 0
        \<lparr>genAcType = Inr [\<lparr>ID = 1, CODE = ''A320'', LABEL = ''Airbus A320''\<rparr>],
          genAcFleet = Inr [\<lparr>ID = 7, CODE = ''F-GKXA'', LABEL = ''MSN 1502''\<rparr>],
          genSettings = Inr [], genAta = Inl \<lparr>instanceof_Error = True, instanceof_TypeError = False,
            thrown_name = ''Error'', thrown_message = ''HTTP 404: Not Found''\<rparr>,
          genTaskType = Inr [], genCraType = Inr [], genDelay = Inr [], genMovUrg = Inr [],
          genSpeciality = Inr [], genPnType = Inr [], genMovType = Inr []\<rparr>) = [\<lparr>ID = 1, CODE = ''A320'', LABEL = ''Airbus A320''\<rparr>]"
  by (simp add: bootstrap_initial_def bootstrapReferentials_def resetBootstrap_def fan_in_def
      isReferentialsLoaded_def getAcTypes_def catch_empty_def emptyStore_def Let_def)

section \<open>The retry policy of the client\<close>

lemma show_int_500: "show_int 500 = ''500''"
  by (simp add: show_int_def show_nat.simps)

text \<open>
  Claim C4. Whenever the fetch of an attempt is answered with status 401, whatever the
  configuration (\<open>maxRetries\<close> included) and whatever attempt it is: the call returns the
  \<open>http\<close> error with status 401, and its effects from there are the one fetch followed by
  one invocation of the configured \<open>onUnauthorized\<close> callback (none when no callback is
  configured): no wait and no further fetch.
\<close>

theorem unauthorized_short_circuit:
  assumes "net attempt = Responds r" and "status r = 401"
  shows "fetchWithRetry cfg net method endpoint params attempt tr =
    (Err \<lparr>error_type = Http, error_status = Some 401, error_statusText = Some ''Unauthorized'',
          error_message = ''Unauthorized - session expired'', error_endpoint = endpoint,
          error_params = params\<rparr>,
     tr @ [Fetch method (baseUrl cfg @ endpoint)] @
       (case onUnauthorized cfg of None \<Rightarrow> [] | Some cb \<Rightarrow> [Unauthorized cb]))"
  using assms
  by (subst fetchWithRetry.simps) (simp add: Let_def createError_def split: option.splits)

theorem unauthorized_short_circuit_witness:
  "fetchWithRetry
     \<lparr>baseUrl = ''/api'', timeout = 30000, maxRetries = 5, retryDelay = 1000,
      onUnauthorized = Some ''logout''\<rparr>
     (\<lambda>n. Responds \<lparr>status = 401, statusText = ''Unauthorized'', content_type = None,
        json_settles = Inr (0::nat), text_settles = Inr ''expired'', text_parses = None\<rparr>)
     GET ''/v1/genata'' None 0 [] =
    (Err \<lparr>error_type = Http, error_status = Some 401, error_statusText = Some ''Unauthorized'',
          error_message = ''Unauthorized - session expired'', error_endpoint = ''/v1/genata'',
          error_params = None\<rparr>,
     [Fetch GET ''/api/v1/genata'', Unauthorized ''logout''])"
proof -
  let ?r = "\<lparr>status = 401, statusText = ''Unauthorized'', content_type = None,
        json_settles = Inr (0::nat), text_settles = Inr ''expired'', text_parses = None\<rparr>"
  have h1: "(\<lambda>n::nat. Responds ?r) 0 = Responds ?r" and h2: "status ?r = 401"
    by simp_all
  show ?thesis
    using unauthorized_short_circuit [of "\<lambda>n. Responds ?r" 0 ?r, OF h1 h2,
        of "\<lparr>baseUrl = ''/api'', timeout = 30000, maxRetries = 5, retryDelay = 1000,
      onUnauthorized = Some ''logout''\<rparr>" GET "''/v1/genata''" None "[]"]
    by simp
qed

text \<open>One step of the retry loop on a server error, and its last step.\<close>

lemma server_error_retry:
  assumes "net attempt = Responds r" and "500 \<le> status r" and "int attempt < maxRetries cfg"
  shows "fetchWithRetry cfg net method endpoint params attempt tr =
    fetchWithRetry cfg net method endpoint params (Suc attempt)
      (tr @ [Fetch method (baseUrl cfg @ endpoint), Sleep (retryDelay cfg * (int attempt + 1))])"
  using assms
  by (subst fetchWithRetry.simps) (simp add: Let_def ok_def)

lemma server_error_final:
  assumes "net attempt = Responds r" and "500 \<le> status r" and "\<not> int attempt < maxRetries cfg"
  shows "fetchWithRetry cfg net method endpoint params attempt tr =
    (Err \<lparr>error_type = Http, error_status = Some (status r),
          error_statusText = Some (statusText r),
          error_message = ''HTTP '' @ show_int (status r) @ '': '' @
            (case text_settles r of Inr t \<Rightarrow> t | Inl e \<Rightarrow> statusText r),
          error_endpoint = endpoint, error_params = params\<rparr>,
     tr @ [Fetch method (baseUrl cfg @ endpoint)])"
  using assms
  by (subst fetchWithRetry.simps) (simp add: Let_def ok_def createError_def)

text \<open>
  Claim C5. With \<open>maxRetries = 2\<close> and a server that always answers 500, a call makes
  exactly three fetches, waits \<open>retryDelay \<times> 1\<close> before the second and \<open>retryDelay \<times> 2\<close>
  before the third, and returns the \<open>http\<close> error with status 500.
\<close>

theorem server_error_retries:
  "fetchWithRetry (cfg\<lparr>maxRetries := 2\<rparr>) (\<lambda>n. Responds (r\<lparr>status := 500\<rparr>))
     method endpoint params 0 tr =
    (Err \<lparr>error_type = Http, error_status = Some 500, error_statusText = Some (statusText r),
          error_message =
            ''HTTP 500: '' @ (case text_settles r of Inr t \<Rightarrow> t | Inl e \<Rightarrow> statusText r),
          error_endpoint = endpoint, error_params = params\<rparr>,
     tr @ [Fetch method (baseUrl cfg @ endpoint), Sleep (retryDelay cfg * 1),
           Fetch method (baseUrl cfg @ endpoint), Sleep (retryDelay cfg * 2),
           Fetch method (baseUrl cfg @ endpoint)])"
proof -
  let ?cfg = "cfg\<lparr>maxRetries := 2\<rparr>" and ?r = "r\<lparr>status := 500\<rparr>"
  let ?net = "\<lambda>n::nat. Responds ?r"
  let ?f = "Fetch method (baseUrl cfg @ endpoint)"
  have s: "500 \<le> status ?r"
    by simp
  have "fetchWithRetry ?cfg ?net method endpoint params 0 tr =
      fetchWithRetry ?cfg ?net method endpoint params (Suc 0) (tr @ [?f, Sleep (retryDelay cfg * 1)])"
    using server_error_retry [of ?net 0 ?r ?cfg "method" endpoint params tr] by simp
  also have "\<dots> = fetchWithRetry ?cfg ?net method endpoint params (Suc (Suc 0))
      (tr @ [?f, Sleep (retryDelay cfg * 1), ?f, Sleep (retryDelay cfg * 2)])"
    using server_error_retry [of ?net "Suc 0" ?r ?cfg "method" endpoint params
        "tr @ [?f, Sleep (retryDelay cfg * 1)]"] by simp
  also have "\<dots> =
      (Err \<lparr>error_type = Http, error_status = Some 500, error_statusText = Some (statusText r),
          error_message =
            ''HTTP 500: '' @ (case text_settles r of Inr t \<Rightarrow> t | Inl e \<Rightarrow> statusText r),
          error_endpoint = endpoint, error_params = params\<rparr>,
       tr @ [?f, Sleep (retryDelay cfg * 1), ?f, Sleep (retryDelay cfg * 2), ?f])"
    using server_error_final [of ?net "Suc (Suc 0)" ?r ?cfg "method" endpoint params
        "tr @ [?f, Sleep (retryDelay cfg * 1), ?f, Sleep (retryDelay cfg * 2)]"]
    by (simp add: show_int_500 cong: sum.case_cong)
  finally show ?thesis .
qed

section \<open>The dashboard counters\<close>

text \<open>
  Claim C10. For every \<open>WpDetail\<close> record, \<open>closedWO\<close> is the sum of the five closed
  counters (routine, rectification excluded, additional works, rectification included,
  storage), the four parts and quote counters are the sums of their two sources, and
  \<open>totalWO\<close>, \<open>openMH\<close>, \<open>closedMH\<close>, \<open>partsInRfq\<close> and \<open>toolsNotReturned\<close> are copied.
\<close>

theorem computeDashboardCounts_fields:
  "closedWO (computeDashboardCounts w) =
     WO_Total_Routine_Closed w + WO_Total_RectWorks_Excl_Closed w + WO_Total_AddWorks_Closed w +
     WO_Total_RectWorks_Incl_Closed w + WO_Total_Storage_Closed w
   \<and> partsToBeOrdered (computeDashboardCounts w) = PARTS_TO_BE_ORDERED w + PARTS_TO_BE_ORDERED_POIN w
   \<and> partsToBeIssued (computeDashboardCounts w) = PARTS_TO_BE_ISSUED w + PARTS_TO_BE_ISSUED_POIN w
   \<and> partsEtaPast (computeDashboardCounts w) = PARTS_ETA_PAST w + PARTS_REQ_ETA_PAST w
   \<and> cqToApprove (computeDashboardCounts w) = BUYER_CQ_TO_APPROVE w + TECHOFFICE_CQ_TO_APPROVE w
   \<and> totalWO (computeDashboardCounts w) = WO_Total w
   \<and> openMH (computeDashboardCounts w) = WO_Total_MH_Opened w
   \<and> closedMH (computeDashboardCounts w) = WO_Total_MH_Closed w
   \<and> partsInRfq (computeDashboardCounts w) = PARTS_IN_RFQ w
   \<and> toolsNotReturned (computeDashboardCounts w) = TOOLS_NOT_RETURNED w"
  by (simp add: computeDashboardCounts_def Let_def)

end
